theory Spec2Isabelle
  imports Complex_Main "HOL-Library.Multiset"
begin

section \<open>The 2D label view: data model\<close>

text \<open>
  The embedding follows \<^verbatim>\<open>src/app/src/js/components/label2d_view.tsx\<close>.
  JavaScript numbers are modelled as real numbers (rounding is not modelled), colour
  indices and button numbers as integers. A nullable reference is an \<open>option\<close>.
  The properties of DOM elements that the component reads or assigns are fields of
  records; an assignment stores the assigned value, a read returns the stored value.
  What the browser's layout engine does between two event handlers is not part of the
  source, so every statement about a handler holds for an arbitrary state of these fields.
\<close>

type_synonym Vector2D = "real \<times> real"

text \<open>
  Modelled from the spec: \<^verbatim>\<open>Vector2D.scale\<close> of \<^verbatim>\<open>math/vector2d\<close> is not
  among the sources; the specification describes the scaling of a point \<open>p\<close> as
  \<open>p * displayToImageRatio\<close>, a multiplication of every coordinate.
\<close>
definition Vector2D_scale :: "real \<Rightarrow> Vector2D \<Rightarrow> Vector2D" where
  "Vector2D_scale k v = (fst v * k, snd v * k)"

record DOMRect =
  rect_x :: real
  rect_y :: real
  rect_width :: real
  rect_height :: real

text \<open>\<^verbatim>\<open>DOMRect.left\<close> and \<^verbatim>\<open>DOMRect.top\<close> as the DOM defines them.\<close>
definition rect_left :: "DOMRect \<Rightarrow> real" where
  "rect_left r = min (rect_x r) (rect_x r + rect_width r)"

definition rect_top :: "DOMRect \<Rightarrow> real" where
  "rect_top r = min (rect_y r) (rect_y r + rect_height r)"

record HTMLDivElement =
  div_rect :: DOMRect
  scrollLeft :: real
  scrollTop :: real

datatype css_value = Unset | Auto | Px real

record HTMLCanvasElement =
  canvas_rect :: DOMRect
  canvas_width :: real
  canvas_height :: real
  offsetLeft :: real
  offsetTop :: real
  style_cursor :: string
  style_width :: css_value
  style_height :: css_value
  style_left :: css_value
  style_top :: css_value
  style_right :: css_value
  style_bottom :: css_value

text \<open>
  A rendering context holds the pixels that \<^verbatim>\<open>getImageData(x, y, 4, 4).data\<close> reads
  (64 bytes, addressed by their index) and the drawing calls it has received.
\<close>
datatype context_call =
    ClearRect real real real real
  | ScaleCall real real
  | LabelsRedraw real

record CanvasRenderingContext2D =
  getImageData :: "real \<Rightarrow> real \<Rightarrow> nat \<Rightarrow> int"
  calls :: "context_call list"

record Size2D =
  size_width :: real
  size_height :: real

record ViewerConfigType =
  viewScale :: real
  viewOffsetX :: real
  viewOffsetY :: real

text \<open>\<^verbatim>\<open>MouseEvent.x\<close> and \<^verbatim>\<open>MouseEvent.y\<close> are the DOM's aliases of
  \<^verbatim>\<open>clientX\<close> and \<^verbatim>\<open>clientY\<close>.\<close>
record MouseEvent =
  clientX :: real
  clientY :: real
  button :: int

text \<open>The label list is an external collaborator: the model records the calls it receives.\<close>
datatype label_call =
    LabelMouseDown Vector2D int int
  | LabelMouseUp Vector2D int int
  | LabelMouseMove Vector2D Size2D int int
  | LabelRedraw real

record Label2DView =
  labelContext :: "CanvasRenderingContext2D option"
  controlContext :: "CanvasRenderingContext2D option"
  labels :: "label_call list"
  labelCanvas :: "HTMLCanvasElement option"
  controlCanvas :: "HTMLCanvasElement option"
  display :: "HTMLDivElement option"
  background :: "HTMLDivElement option"
  scale :: real
  canvasHeight :: real
  canvasWidth :: real
  displayToImageRatio :: real
  keyDownMap :: "string \<rightharpoonup> bool"
  isGrabbingImage :: bool
  startGrabX :: real
  startGrabY :: real
  startGrabVisibleCoords :: "real list"

definition MAX_SCALE :: real where "MAX_SCALE = 3.0"
definition MIN_SCALE :: real where "MIN_SCALE = 1.0"
definition UP_RES_RATIO :: real where "UP_RES_RATIO = 2"

text \<open>The state the constructor builds.\<close>
definition constructor :: Label2DView where
  "constructor = \<lparr> labelContext = None, controlContext = None, labels = [],
     labelCanvas = None, controlCanvas = None, display = None, background = None,
     scale = 1, canvasHeight = 0, canvasWidth = 0, displayToImageRatio = 1,
     keyDownMap = Map.empty, isGrabbingImage = False, startGrabX = -1, startGrabY = -1,
     startGrabVisibleCoords = [] \<rparr>"

section \<open>The mode of the samples\<close>

text \<open>
  \<^verbatim>\<open>Array.prototype.sort\<close> with a comparison function: ECMAScript sorts a snapshot of
  the elements and the sort is stable. It is modelled as a stable insertion sort; an
  element goes before the first element that it does not compare greater than.
\<close>
fun insert_by :: "('a \<Rightarrow> 'a \<Rightarrow> int) \<Rightarrow> 'a \<Rightarrow> 'a list \<Rightarrow> 'a list" where
  "insert_by cmp a [] = [a]"
| "insert_by cmp a (b # bs) =
     (if cmp a b \<le> 0 then a # b # bs else b # insert_by cmp a bs)"

definition Array_sort :: "('a \<Rightarrow> 'a \<Rightarrow> int) \<Rightarrow> 'a list \<Rightarrow> 'a list" where
  "Array_sort cmp arr = foldr (insert_by cmp) arr []"

text \<open>\<^verbatim>\<open>Array.prototype.pop\<close>: the last element, \<^verbatim>\<open>undefined\<close> on an empty array.\<close>
definition Array_pop :: "'a list \<Rightarrow> 'a option" where
  "Array_pop arr = (if arr = [] then None else Some (last arr))"

definition mode :: "int list \<Rightarrow> int option" where
  "mode arr =
     Array_pop (Array_sort
       (\<lambda>a b. int (length (filter (\<lambda>v. v = a) arr))
            - int (length (filter (\<lambda>v. v = b) arr))) arr)"

section \<open>Coordinate transforms\<close>

definition toCanvasCoords :: "Vector2D \<Rightarrow> bool \<Rightarrow> Label2DView \<Rightarrow> Vector2D" where
  "toCanvasCoords values upRes s =
     (let out = Vector2D_scale (displayToImageRatio s) values
      in if upRes then Vector2D_scale UP_RES_RATIO out else out)"

definition toImageCoords :: "Vector2D \<Rightarrow> bool \<Rightarrow> Label2DView \<Rightarrow> Vector2D" where
  "toImageCoords values upRes s =
     (let up = (if upRes then 1 / UP_RES_RATIO else 1)
      in Vector2D_scale (displayToImageRatio s * up) values)"

section \<open>Drawing\<close>

definition setCursor :: "string \<Rightarrow> Label2DView \<Rightarrow> Label2DView" where
  "setCursor cursor s =
     (case labelCanvas s of
        Some c \<Rightarrow> s\<lparr>labelCanvas := Some (c\<lparr>style_cursor := cursor\<rparr>)\<rparr>
      | None \<Rightarrow> s)"

definition setDefaultCursor :: "Label2DView \<Rightarrow> Label2DView" where
  "setDefaultCursor s = setCursor ''crosshair'' s"

definition clearCanvas ::
  "HTMLCanvasElement \<Rightarrow> CanvasRenderingContext2D \<Rightarrow> CanvasRenderingContext2D" where
  "clearCanvas canvas context =
     context\<lparr>calls := calls context @ [ClearRect 0 0 (canvas_width canvas) (canvas_height canvas)]\<rparr>"

text \<open>
  \<^verbatim>\<open>redraw\<close> returns its boolean together with the new state. The drawing of the label
  list is recorded as one call on the list and on each of the two contexts.
\<close>
definition redraw :: "Label2DView \<Rightarrow> bool \<times> Label2DView" where
  "redraw s =
     (case (labelCanvas s, labelContext s, controlCanvas s, controlContext s) of
        (Some lc, Some lx, Some cc, Some cx) \<Rightarrow>
          (let lx1 = clearCanvas lc lx;
               cx1 = clearCanvas cc cx;
               k = displayToImageRatio s * UP_RES_RATIO
           in (True, s\<lparr>labelContext := Some (lx1\<lparr>calls := calls lx1 @ [LabelsRedraw k]\<rparr>),
                        controlContext := Some (cx1\<lparr>calls := calls cx1 @ [LabelsRedraw k]\<rparr>),
                        labels := labels s @ [LabelRedraw k]\<rparr>))
      | _ \<Rightarrow> (True, s))"

section \<open>Mouse position and picking\<close>

definition getVisibleCanvasCoords :: "Label2DView \<Rightarrow> Vector2D" where
  "getVisibleCanvasCoords s =
     (case (display s, controlCanvas s) of
        (Some d, Some c) \<Rightarrow>
          (rect_x (div_rect d) - rect_x (canvas_rect c),
           rect_y (div_rect d) - rect_y (canvas_rect c))
      | _ \<Rightarrow> (0, 0))"

definition getMousePos :: "MouseEvent \<Rightarrow> Label2DView \<Rightarrow> Vector2D" where
  "getMousePos e s =
     (case display s of
        Some d \<Rightarrow>
          (let (offsetX, offsetY) = getVisibleCanvasCoords s;
               displayRect = div_rect d;
               x = clientX e - rect_x displayRect + offsetX;
               y = clientY e - rect_y displayRect + offsetY;
               x = max 0 (min x (canvasWidth s));
               y = max 0 (min y (canvasHeight s))
           in (x / displayToImageRatio s, y / displayToImageRatio s))
      | None \<Rightarrow> (0, 0))"

text \<open>
  Modelled from the spec: \<^verbatim>\<open>rgbToIndex\<close> and \<^verbatim>\<open>decodeControlIndex\<close> of
  \<^verbatim>\<open>drawable/util\<close> are not among the sources. The specification packs the three
  channels as \<open>r + g * 256 + b * 65536\<close> and decodes \<open>handleId = index & 0xFF\<close>,
  \<open>labelId = (index >> 8) - 1\<close>.
\<close>
fun rgbToIndex :: "int list \<Rightarrow> int" where
  "rgbToIndex [r, g, b] = r + g * 256 + b * 65536"
| "rgbToIndex _ = 0"

definition decodeControlIndex :: "int \<Rightarrow> int \<times> int" where
  "decodeControlIndex index = (drop_bit 8 index - 1, take_bit 8 index)"

text \<open>
  The sixteen samples are the first three bytes of each group of four. On sixteen
  samples \<^verbatim>\<open>mode\<close> never yields \<^verbatim>\<open>undefined\<close>; the bit operations of the decoder
  would read it as 0.
\<close>
definition fetchHandleId :: "Vector2D \<Rightarrow> Label2DView \<Rightarrow> int \<times> int" where
  "fetchHandleId mousePos s =
     (case controlContext s of
        Some context \<Rightarrow>
          (let (x, y) = toCanvasCoords mousePos True s;
               data = getImageData context x y;
               arr = map (\<lambda>i. rgbToIndex (map data [i * 4 ..< i * 4 + 3])) [0 ..< 16];
               hoveredIndex = (case mode arr of Some h \<Rightarrow> h | None \<Rightarrow> 0)
           in decodeControlIndex hoveredIndex)
      | None \<Rightarrow> (-1, 0))"

section \<open>Input handlers\<close>

definition isWithinFrame :: "MouseEvent \<Rightarrow> Label2DView \<Rightarrow> bool" where
  "isWithinFrame e s =
     (case background s of
        None \<Rightarrow> False
      | Some b \<Rightarrow>
          (let r = div_rect b
           in clientX e \<ge> rect_left r \<and> clientY e \<ge> rect_top r \<and>
              clientX e \<le> rect_left r + rect_width r \<and>
              clientY e \<le> rect_top r + rect_height r))"

definition isKeyDown :: "string \<Rightarrow> Label2DView \<Rightarrow> bool" where
  "isKeyDown key s = (keyDownMap s key = Some True)"

definition onKeyDown :: "string \<Rightarrow> Label2DView \<Rightarrow> Label2DView" where
  "onKeyDown key s = s\<lparr>keyDownMap := (keyDownMap s)(key \<mapsto> True)\<rparr>"

definition onKeyUp :: "string \<Rightarrow> Label2DView \<Rightarrow> Label2DView" where
  "onKeyUp key s = s\<lparr>keyDownMap := (keyDownMap s)(key := None)\<rparr>"

definition onMouseDown :: "MouseEvent \<Rightarrow> Label2DView \<Rightarrow> Label2DView" where
  "onMouseDown e s =
     (if \<not> isWithinFrame e s \<or> button e \<noteq> 0 then s
      else
        let s1 =
          (if isKeyDown ''Control'' s then
             (case (display s, controlCanvas s) of
                (Some d, Some c) \<Rightarrow>
                  if canvas_width c > rect_width (div_rect d) \<or>
                     canvas_height c > rect_height (div_rect d)
                  then
                    (let s0 = setCursor ''grabbing'' s;
                         (vx, vy) = getVisibleCanvasCoords s0
                     in s0\<lparr>isGrabbingImage := True,
                            startGrabX := clientX e,
                            startGrabY := clientY e,
                            startGrabVisibleCoords := [vx, vy]\<rparr>)
                  else s
              | _ \<Rightarrow> s)
           else
             (let mousePos = getMousePos e s;
                  (labelIndex, handleIndex) = fetchHandleId mousePos s
              in s\<lparr>labels := labels s @ [LabelMouseDown mousePos labelIndex handleIndex]\<rparr>))
        in snd (redraw s1))"

definition onMouseUp :: "MouseEvent \<Rightarrow> Label2DView \<Rightarrow> Label2DView" where
  "onMouseUp e s =
     (if \<not> isWithinFrame e s \<or> button e \<noteq> 0 then s
      else
        let s1 = s\<lparr>isGrabbingImage := False, startGrabX := -1, startGrabY := -1,
                    startGrabVisibleCoords := []\<rparr>;
            mousePos = getMousePos e s1;
            (labelIndex, handleIndex) = fetchHandleId mousePos s1;
            s2 = s1\<lparr>labels := labels s1 @ [LabelMouseUp mousePos labelIndex handleIndex]\<rparr>
        in snd (redraw s2))"

definition onMouseLeave :: "MouseEvent \<Rightarrow> Label2DView \<Rightarrow> Label2DView" where
  "onMouseLeave e s = onMouseUp e (s\<lparr>keyDownMap := Map.empty\<rparr>)"

text \<open>
  Reading an index that the array of start coordinates does not have gives
  \<^verbatim>\<open>undefined\<close>, the difference is then \<^verbatim>\<open>NaN\<close>, and the setters of
  \<^verbatim>\<open>scrollLeft\<close> and \<^verbatim>\<open>scrollTop\<close> store 0 for a value that is not finite.
\<close>
definition scroll_from :: "real list \<Rightarrow> nat \<Rightarrow> real \<Rightarrow> real" where
  "scroll_from coords i d = (if i < length coords then coords ! i - d else 0)"

text \<open>The size of the current image comes from the session and is a parameter.\<close>
definition onMouseMove :: "Size2D \<Rightarrow> MouseEvent \<Rightarrow> Label2DView \<Rightarrow> Label2DView" where
  "onMouseMove img e s =
     (if \<not> isWithinFrame e s then onMouseLeave e s
      else
        let s1 =
          (if isKeyDown ''Control'' s then
             (if isGrabbingImage s then
                (case display s of
                   Some d \<Rightarrow>
                     (let s0 = setCursor ''grabbing'' s;
                          dx = clientX e - startGrabX s0;
                          dy = clientY e - startGrabY s0
                      in s0\<lparr>display := Some (d\<lparr>
                            scrollLeft := scroll_from (startGrabVisibleCoords s0) 0 dx,
                            scrollTop := scroll_from (startGrabVisibleCoords s0) 1 dy\<rparr>)\<rparr>)
                 | None \<Rightarrow> s)
              else setCursor ''grab'' s)
           else setDefaultCursor s);
            mousePos = getMousePos e s1;
            (labelIndex, handleIndex) = fetchHandleId mousePos s1;
            s2 = s1\<lparr>labels := labels s1 @ [LabelMouseMove mousePos img labelIndex handleIndex]\<rparr>
        in snd (redraw s2))"

definition onWheel :: "MouseEvent \<Rightarrow> Label2DView \<Rightarrow> Label2DView" where
  "onWheel e s =
     (if \<not> isWithinFrame e s then s
      else if isKeyDown ''Control'' s then snd (redraw s) else s)"

definition onDblClick :: "MouseEvent \<Rightarrow> Label2DView \<Rightarrow> Label2DView" where
  "onDblClick e s = (if \<not> isWithinFrame e s then s else s)"

section \<open>Rescaling\<close>

definition getPadding :: "Label2DView \<Rightarrow> Vector2D" where
  "getPadding s =
     (case display s of
        Some d \<Rightarrow>
          (max 0 ((rect_width (div_rect d) - canvasWidth s) / 2),
           max 0 ((rect_height (div_rect d) - canvasHeight s) / 2))
      | None \<Rightarrow> (0, 0))"

text \<open>
  The canvas passed to \<^verbatim>\<open>updateScale\<close> is the very object that one of the two
  canvas fields refers to; the model passes which one.
\<close>
datatype canvas_ref = ControlCanvas | LabelCanvas

definition update_canvas ::
  "canvas_ref \<Rightarrow> (HTMLCanvasElement \<Rightarrow> HTMLCanvasElement) \<Rightarrow> Label2DView \<Rightarrow> Label2DView" where
  "update_canvas r f s =
     (case r of
        ControlCanvas \<Rightarrow> s\<lparr>controlCanvas := map_option f (controlCanvas s)\<rparr>
      | LabelCanvas \<Rightarrow> s\<lparr>labelCanvas := map_option f (labelCanvas s)\<rparr>)"

definition update_display ::
  "(HTMLDivElement \<Rightarrow> HTMLDivElement) \<Rightarrow> Label2DView \<Rightarrow> Label2DView" where
  "update_display f s = s\<lparr>display := map_option f (display s)\<rparr>"

text \<open>
  The anchor of a rescale: the visible coordinates of the upper left corner and the
  offset of the anchor on the screen, computed only when \<open>viewScale > 1\<close>.
\<close>
definition zoom_anchor ::
  "ViewerConfigType \<Rightarrow> DOMRect \<Rightarrow> HTMLCanvasElement \<Rightarrow> Label2DView \<Rightarrow>
   (Vector2D \<times> Vector2D) option" where
  "zoom_anchor config displayRect cc s =
     (if viewScale config > 1.0 then
        (let upperLeftCoords = getVisibleCanvasCoords s
         in if viewOffsetX config < 0 \<or> viewOffsetY config < 0 then
              Some (upperLeftCoords,
                    (min (rect_width displayRect) (canvas_width cc) / 2,
                     min (rect_height displayRect) (canvas_height cc) / 2))
            else
              (let (mx, my) = toCanvasCoords (viewOffsetX config, viewOffsetY config) False s
               in Some (upperLeftCoords,
                        (mx - fst upperLeftCoords, my - snd upperLeftCoords))))
      else None)"

text \<open>The step "resize canvas": the three viewport fields fitted to the container.\<close>
definition resize_canvas ::
  "ViewerConfigType \<Rightarrow> Size2D \<Rightarrow> DOMRect \<Rightarrow> Label2DView \<Rightarrow> Label2DView" where
  "resize_canvas config img displayRect s =
     (let ratio = size_width img / size_height img
      in if rect_width displayRect / rect_height displayRect > ratio then
           (let h = rect_height displayRect * viewScale config
            in s\<lparr>canvasHeight := h, canvasWidth := h * ratio,
                  displayToImageRatio := h / size_height img\<rparr>)
         else
           (let w = rect_width displayRect * viewScale config
            in s\<lparr>canvasWidth := w, canvasHeight := w / ratio,
                  displayToImageRatio := w / size_width img\<rparr>))"

text \<open>The step "zoom to point", on each axis where the canvas exceeds the container.\<close>
definition zoom_to_point ::
  "real \<Rightarrow> DOMRect \<Rightarrow> (Vector2D \<times> Vector2D) option \<Rightarrow> Label2DView \<Rightarrow> Label2DView" where
  "zoom_to_point zoomRatio displayRect anchor s =
     (case anchor of
        Some (upperLeftCoords, mouseOffset) \<Rightarrow>
          (let s1 = (if canvasWidth s > rect_width displayRect
                     then update_display (\<lambda>d. d\<lparr>scrollLeft :=
                            zoomRatio * (fst upperLeftCoords + fst mouseOffset)
                            - fst mouseOffset\<rparr>) s
                     else s)
           in if canvasHeight s1 > rect_height displayRect
              then update_display (\<lambda>d. d\<lparr>scrollTop :=
                     zoomRatio * (snd upperLeftCoords + snd mouseOffset)
                     - snd mouseOffset\<rparr>) s1
              else s1)
      | None \<Rightarrow> s)"

text \<open>
  The view configuration and the current image come from the store and the session
  and are parameters.
\<close>
definition updateScale ::
  "ViewerConfigType \<Rightarrow> Size2D \<Rightarrow> canvas_ref \<Rightarrow> bool \<Rightarrow> Label2DView \<Rightarrow> Label2DView" where
  "updateScale config img canvas upRes s =
     (case (display s, controlCanvas s, controlContext s) of
        (Some d, Some cc, Some cx) \<Rightarrow>
          (let displayRect = div_rect d;
               anchor = zoom_anchor config displayRect cc s
           in if viewScale config \<ge> MIN_SCALE \<and> viewScale config < MAX_SCALE then
                (let zoomRatio = viewScale config / scale s;
                     s1 = s\<lparr>controlContext :=
                             Some (cx\<lparr>calls := calls cx @ [ScaleCall zoomRatio zoomRatio]\<rparr>)\<rparr>;
                     s2 = resize_canvas config img displayRect s1;
                     s3 = (if anchor \<noteq> None
                           then update_display (\<lambda>d. d\<lparr>scrollTop := offsetTop cc,
                                                       scrollLeft := offsetLeft cc\<rparr>) s2
                           else s2);
                     s4 = (if upRes
                           then update_canvas canvas (\<lambda>c. c\<lparr>
                                  canvas_height := canvasHeight s3 * UP_RES_RATIO,
                                  canvas_width := canvasWidth s3 * UP_RES_RATIO\<rparr>) s3
                           else update_canvas canvas (\<lambda>c. c\<lparr>
                                  canvas_height := canvasHeight s3,
                                  canvas_width := canvasWidth s3\<rparr>) s3);
                     s5 = update_canvas canvas (\<lambda>c. c\<lparr>
                            style_height := Px (canvasHeight s4),
                            style_width := Px (canvasWidth s4)\<rparr>) s4;
                     (padX, padY) = getPadding s5;
                     s6 = update_canvas canvas (\<lambda>c. c\<lparr>
                            style_left := Px padX, style_top := Px padY,
                            style_right := Auto, style_bottom := Auto\<rparr>) s5;
                     s7 = zoom_to_point zoomRatio displayRect anchor s6
                 in s7\<lparr>scale := viewScale config\<rparr>)
              else s)
      | _ \<Rightarrow> s)"

section \<open>Mounting, and the histories of the view\<close>

text \<open>
  The ref callbacks of \<^verbatim>\<open>render\<close>. React calls a ref callback with the element, or
  with null; \<^verbatim>\<open>getContext('2d')\<close> gives a context or null; whether the current item
  is loaded, the view configuration and the image come from the store and the session.
\<close>
definition background_ref :: "HTMLDivElement option \<Rightarrow> Label2DView \<Rightarrow> Label2DView" where
  "background_ref element s =
     (case element of Some el \<Rightarrow> s\<lparr>background := Some el\<rparr> | None \<Rightarrow> s)"

definition display_ref :: "HTMLDivElement option \<Rightarrow> Label2DView \<Rightarrow> Label2DView" where
  "display_ref element s =
     (case element of Some el \<Rightarrow> s\<lparr>display := Some el\<rparr> | None \<Rightarrow> s)"

definition controlCanvas_ref ::
  "HTMLCanvasElement option \<Rightarrow> CanvasRenderingContext2D option \<Rightarrow> bool \<Rightarrow>
   ViewerConfigType \<Rightarrow> Size2D \<Rightarrow> Label2DView \<Rightarrow> Label2DView" where
  "controlCanvas_ref canvas context loaded config img s =
     (case (canvas, display s) of
        (Some c, Some d) \<Rightarrow>
          (let s1 = s\<lparr>controlCanvas := Some c, controlContext := context\<rparr>
           in if rect_width (div_rect d) \<noteq> 0 \<and> rect_height (div_rect d) \<noteq> 0 \<and> loaded
              then updateScale config img ControlCanvas True s1
              else s1)
      | _ \<Rightarrow> s)"

definition labelCanvas_ref ::
  "HTMLCanvasElement option \<Rightarrow> CanvasRenderingContext2D option \<Rightarrow> bool \<Rightarrow>
   ViewerConfigType \<Rightarrow> Size2D \<Rightarrow> Label2DView \<Rightarrow> Label2DView" where
  "labelCanvas_ref canvas context loaded config img s =
     (case (canvas, display s) of
        (Some c, Some d) \<Rightarrow>
          (let s1 = s\<lparr>labelCanvas := Some c, labelContext := context\<rparr>
           in if rect_width (div_rect d) \<noteq> 0 \<and> rect_height (div_rect d) \<noteq> 0 \<and> loaded
              then updateScale config img LabelCanvas True s1
              else s1)
      | _ \<Rightarrow> s)"

text \<open>
  Between two calls into the component the browser may change every attached element:
  layout moves and resizes rectangles, the user scrolls, pixels are painted. The new
  contents of the elements are arbitrary; which references are attached does not change.
\<close>
definition browser_update ::
  "HTMLDivElement \<Rightarrow> HTMLDivElement \<Rightarrow> HTMLCanvasElement \<Rightarrow> HTMLCanvasElement \<Rightarrow>
   CanvasRenderingContext2D \<Rightarrow> CanvasRenderingContext2D \<Rightarrow> Label2DView \<Rightarrow> Label2DView" where
  "browser_update d b lc cc lx cx s =
     s\<lparr>display := map_option (\<lambda>_. d) (display s),
       background := map_option (\<lambda>_. b) (background s),
       labelCanvas := map_option (\<lambda>_. lc) (labelCanvas s),
       controlCanvas := map_option (\<lambda>_. cc) (controlCanvas s),
       labelContext := map_option (\<lambda>_. lx) (labelContext s),
       controlContext := map_option (\<lambda>_. cx) (controlContext s)\<rparr>"

datatype action =
    BackgroundRef "HTMLDivElement option"
  | DisplayRef "HTMLDivElement option"
  | ControlCanvasRef "HTMLCanvasElement option" "CanvasRenderingContext2D option" bool
      ViewerConfigType Size2D
  | LabelCanvasRef "HTMLCanvasElement option" "CanvasRenderingContext2D option" bool
      ViewerConfigType Size2D
  | KeyDown string
  | KeyUp string
  | MouseDown MouseEvent
  | MouseUp MouseEvent
  | MouseLeave MouseEvent
  | MouseMove Size2D MouseEvent
  | Wheel MouseEvent
  | DblClick MouseEvent
  | Redraw
  | SetCursor string
  | Browser HTMLDivElement HTMLDivElement HTMLCanvasElement HTMLCanvasElement
      CanvasRenderingContext2D CanvasRenderingContext2D

fun step :: "action \<Rightarrow> Label2DView \<Rightarrow> Label2DView" where
  "step (BackgroundRef el) s = background_ref el s"
| "step (DisplayRef el) s = display_ref el s"
| "step (ControlCanvasRef c x loaded config img) s = controlCanvas_ref c x loaded config img s"
| "step (LabelCanvasRef c x loaded config img) s = labelCanvas_ref c x loaded config img s"
| "step (KeyDown k) s = onKeyDown k s"
| "step (KeyUp k) s = onKeyUp k s"
| "step (MouseDown e) s = onMouseDown e s"
| "step (MouseUp e) s = onMouseUp e s"
| "step (MouseLeave e) s = onMouseLeave e s"
| "step (MouseMove img e) s = onMouseMove img e s"
| "step (Wheel e) s = onWheel e s"
| "step (DblClick e) s = onDblClick e s"
| "step Redraw s = snd (redraw s)"
| "step (SetCursor c) s = setCursor c s"
| "step (Browser d b lc cc lx cx) s = browser_update d b lc cc lx cx s"

text \<open>The state after a history of calls, starting from the constructor.\<close>
definition run :: "action list \<Rightarrow> Label2DView" where
  "run as = foldl (\<lambda>s a. step a s) constructor as"

text \<open>
  What the environment guarantees: bounding rectangles of the display have a width and
  a height that are not negative, and a loaded image has a positive width and height.
\<close>
definition rect_ok :: "DOMRect \<Rightarrow> bool" where
  "rect_ok r \<longleftrightarrow> 0 \<le> rect_width r \<and> 0 \<le> rect_height r"

fun valid_action :: "action \<Rightarrow> bool" where
  "valid_action (DisplayRef (Some d)) = rect_ok (div_rect d)"
| "valid_action (Browser d b lc cc lx cx) = rect_ok (div_rect d)"
| "valid_action (ControlCanvasRef c x loaded config img) =
     (0 < size_width img \<and> 0 < size_height img)"
| "valid_action (LabelCanvasRef c x loaded config img) =
     (0 < size_width img \<and> 0 < size_height img)"
| "valid_action _ = True"

section \<open>Notions used in the statements\<close>

text \<open>The frequency of a value in the sample array, as the comparison of \<^verbatim>\<open>mode\<close> counts it.\<close>
definition occurrences :: "int list \<Rightarrow> int \<Rightarrow> nat" where
  "occurrences arr a = length (filter (\<lambda>v. v = a) arr)"

text \<open>The condition under which \<^verbatim>\<open>redraw\<close> paints.\<close>
definition canvases_attached :: "Label2DView \<Rightarrow> bool" where
  "canvases_attached s \<longleftrightarrow>
     labelCanvas s \<noteq> None \<and> labelContext s \<noteq> None \<and>
     controlCanvas s \<noteq> None \<and> controlContext s \<noteq> None"

text \<open>
  The zoom-to-point scenario: a container of 800 by 600 pixels, an image of 400 by 300
  pixels shown at scale 1 (so that one image pixel is two canvas pixels), and a request
  for scale 2 anchored at the centre of the image.
\<close>
definition scenario_display :: HTMLDivElement where
  "scenario_display = \<lparr> div_rect = \<lparr> rect_x = 0, rect_y = 0, rect_width = 800, rect_height = 600 \<rparr>,
     scrollLeft = 0, scrollTop = 0 \<rparr>"

definition scenario_canvas :: HTMLCanvasElement where
  "scenario_canvas = \<lparr> canvas_rect = \<lparr> rect_x = 0, rect_y = 0, rect_width = 800, rect_height = 600 \<rparr>,
     canvas_width = 1600, canvas_height = 1200, offsetLeft = 0, offsetTop = 0,
     style_cursor = ''crosshair'', style_width = Px 800, style_height = Px 600,
     style_left = Px 0, style_top = Px 0, style_right = Auto, style_bottom = Auto \<rparr>"

definition scenario_context :: CanvasRenderingContext2D where
  "scenario_context = \<lparr> getImageData = (\<lambda>x y i. 0), calls = [] \<rparr>"

definition scenario_view :: Label2DView where
  "scenario_view = constructor \<lparr>
     labelContext := Some scenario_context, controlContext := Some scenario_context,
     labelCanvas := Some scenario_canvas, controlCanvas := Some scenario_canvas,
     display := Some scenario_display, background := Some scenario_display,
     canvasHeight := 600, canvasWidth := 800, displayToImageRatio := 2 \<rparr>"

definition scenario_image :: Size2D where
  "scenario_image = \<lparr> size_width = 400, size_height = 300 \<rparr>"

definition scenario_config :: ViewerConfigType where
  "scenario_config = \<lparr> viewScale = 2, viewOffsetX = 200, viewOffsetY = 150 \<rparr>"


text \<open>
  The grab-pan scenario: the Control key goes down over the view of the zoom scenario,
  whose canvas buffer (1600 by 1200) exceeds the container, and the primary button is
  pressed at the centre of the frame.
\<close>
definition held_view :: Label2DView where
  "held_view = onKeyDown ''Control'' scenario_view"

definition grabbing_view :: Label2DView where
  "grabbing_view = onMouseDown \<lparr>clientX = 400, clientY = 300, button = 0\<rparr> held_view"

text \<open>
  Mounting: the background and the display are attached, then the control canvas, which
  rescales to scale 1.
\<close>
definition mounting :: "action list" where
  "mounting =
     [BackgroundRef (Some scenario_display),
      DisplayRef (Some scenario_display),
      ControlCanvasRef (Some scenario_canvas) (Some scenario_context) True
        \<lparr> viewScale = 1, viewOffsetX = - 1, viewOffsetY = - 1 \<rparr> scenario_image]"

text \<open>The range of an image-space mouse position.\<close>
definition within_canvas :: "Vector2D \<Rightarrow> Label2DView \<Rightarrow> bool" where
  "within_canvas p s \<longleftrightarrow>
     0 \<le> fst p \<and> fst p \<le> canvasWidth s / displayToImageRatio s \<and>
     0 \<le> snd p \<and> snd p \<le> canvasHeight s / displayToImageRatio s"

text \<open>Invariants of the histories.\<close>
definition scale_bounded :: "Label2DView \<Rightarrow> bool" where
  "scale_bounded s \<longleftrightarrow> MIN_SCALE \<le> scale s \<and> scale s < MAX_SCALE"

definition unscaled_without_canvas :: "Label2DView \<Rightarrow> bool" where
  "unscaled_without_canvas s \<longleftrightarrow>
     (controlCanvas s = None \<longrightarrow>
        canvasWidth s = 0 \<and> canvasHeight s = 0 \<and> displayToImageRatio s = 1)"

definition viewport_positive :: "Label2DView \<Rightarrow> bool" where
  "viewport_positive s \<longleftrightarrow>
     0 \<le> canvasWidth s \<and> 0 \<le> canvasHeight s \<and> 0 < displayToImageRatio s
     \<and> (\<forall>d. display s = Some d \<longrightarrow> rect_ok (div_rect d))"

text \<open>What no handler other than a rescale touches.\<close>
definition same_viewport :: "Label2DView \<Rightarrow> Label2DView \<Rightarrow> bool" where
  "same_viewport s s' \<longleftrightarrow>
     scale s' = scale s \<and> canvasWidth s' = canvasWidth s \<and> canvasHeight s' = canvasHeight s
     \<and> displayToImageRatio s' = displayToImageRatio s
     \<and> (controlCanvas s' = None \<longleftrightarrow> controlCanvas s = None)
     \<and> map_option div_rect (display s') = map_option div_rect (display s)"

section \<open>The mode of the samples: properties\<close>

text \<open>The comparison by frequency makes the sort a stable sort by the key \<open>occurrences\<close>.\<close>
lemma insert_by_insort_key:
  "insert_by (\<lambda>a b. int (f a) - int (f b)) x ys = insort_key f x ys"
  by (induction ys) auto

lemma Array_sort_sort_key:
  "Array_sort (\<lambda>a b. int (f a) - int (f b)) xs = sort_key f xs"
  by (induction xs) (simp_all add: Array_sort_def sort_key_def insert_by_insort_key)

lemma mode_sort_key:
  "mode arr = (if arr = [] then None else Some (last (sort_key (occurrences arr) arr)))"
proof -
  have "Array_sort (\<lambda>a b. int (occurrences arr a) - int (occurrences arr b)) arr
        = sort_key (occurrences arr) arr"
    by (rule Array_sort_sort_key)
  moreover have "sort_key (occurrences arr) arr = [] \<longleftrightarrow> arr = []"
    by (metis length_sort length_0_conv)
  ultimately show ?thesis
    by (simp add: mode_def Array_pop_def occurrences_def)
qed

lemma sorted_last_greatest:
  "sorted (map f ys) \<Longrightarrow> x \<in> set ys \<Longrightarrow> (f x :: nat) \<le> f (last ys)"
  by (induction ys) (auto split: if_splits)

lemma last_sort_key_greatest:
  assumes "x \<in> set xs"
  shows "(f x :: nat) \<le> f (last (sort_key f xs))"
  by (rule sorted_last_greatest) (simp_all add: assms)

lemma last_sort_key_mem:
  assumes "xs \<noteq> []"
  shows "last (sort_key f xs) \<in> set xs"
proof -
  have "sort_key f xs \<noteq> []" using assms by (metis length_sort length_0_conv)
  then have "last (sort_key f xs) \<in> set (sort_key f xs)" by (rule last_in_set)
  then show ?thesis by simp
qed

lemma last_filter_last:
  assumes "xs \<noteq> []" and "P (last xs)"
  shows "last (filter P xs) = last xs"
proof -
  have "filter P xs = filter P (butlast xs @ [last xs])"
    using assms(1) by simp
  also have "\<dots> = filter P (butlast xs) @ [last xs]"
    using assms(2) by simp
  finally show ?thesis by simp
qed

lemma last_sort_key_stable:
  fixes f :: "'a \<Rightarrow> nat"
  assumes "xs \<noteq> []"
  shows "last (sort_key f xs) = last (filter (\<lambda>a. \<forall>b\<in>set xs. f b \<le> f a) xs)"
proof -
  let ?ys = "sort_key f xs"
  let ?m = "last ?ys"
  let ?P = "\<lambda>a. \<forall>b\<in>set xs. f b \<le> f a"
  have ne: "?ys \<noteq> []" using assms by (metis length_sort length_0_conv)
  have top: "?P ?m" by (simp add: last_sort_key_greatest)
  have mem: "?m \<in> set xs" using assms by (rule last_sort_key_mem)
  have same: "?P a \<longleftrightarrow> f a = f ?m" if "a \<in> set xs" for a
  proof
    assume "?P a"
    then have "f ?m \<le> f a" using mem by blast
    moreover have "f a \<le> f ?m" using that by (rule last_sort_key_greatest)
    ultimately show "f a = f ?m" by simp
  next
    assume "f a = f ?m"
    then show "?P a" using top by simp
  qed
  have "filter ?P xs = filter (\<lambda>a. f a = f ?m) xs"
    by (rule filter_cong) (simp_all add: same)
  also have "\<dots> = filter (\<lambda>a. f a = f ?m) ?ys"
    by (simp add: sort_key_stable)
  finally have "last (filter ?P xs) = last (filter (\<lambda>a. f a = f ?m) ?ys)"
    by simp
  also have "\<dots> = ?m"
    using ne by (rule last_filter_last) simp
  finally show ?thesis by simp
qed

lemma occurrences_two:
  "w \<noteq> v \<Longrightarrow> occurrences arr w + occurrences arr v \<le> length arr"
  by (induction arr) (auto simp: occurrences_def)

lemma occurrences_count: "occurrences arr a = count (mset arr) a"
  by (induction arr) (simp_all add: occurrences_def)

lemma occurrences_mset:
  "mset arr' = mset arr \<Longrightarrow> occurrences arr' = occurrences arr"
  by (rule ext) (simp add: occurrences_count)

lemma mode_plurality:
  assumes "v \<in> set arr" and "\<forall>w\<in>set arr. w \<noteq> v \<longrightarrow> occurrences arr w < occurrences arr v"
  shows "mode arr = Some v"
proof -
  let ?m = "last (sort_key (occurrences arr) arr)"
  have ne: "arr \<noteq> []" using assms(1) by auto
  have "?m \<in> set arr" using ne by (rule last_sort_key_mem)
  moreover have "occurrences arr v \<le> occurrences arr ?m"
    using assms(1) by (rule last_sort_key_greatest)
  ultimately have "?m = v" using assms(2) by fastforce
  then show ?thesis using ne by (simp add: mode_sort_key)
qed


text \<open>
  C4: for every array of 16 samples in which one value occurs more than 8 times, the mode
  of every reordering of the array is that value; and on every non-empty array the mode
  is fixed by the array alone: it is the last element, in the order of the array, among
  the elements of greatest frequency, so an exact tie always gives the same value.
\<close>
theorem mode_majority:
  "(length arr = 16 \<and> 8 < occurrences arr v \<and> mset arr' = mset arr \<longrightarrow> mode arr' = Some v)
   \<and> (arr \<noteq> [] \<longrightarrow>
        mode arr = Some (last (filter (\<lambda>a. \<forall>b\<in>set arr. occurrences arr b \<le> occurrences arr a) arr)))"
proof (intro conjI impI)
  assume h: "length arr = 16 \<and> 8 < occurrences arr v \<and> mset arr' = mset arr"
  from h have l16: "length arr = 16" and maj: "8 < occurrences arr v"
    and perm: "mset arr' = mset arr" by blast+
  have occ: "occurrences arr' = occurrences arr" using perm by (rule occurrences_mset)
  have "length arr' = length arr" using perm by (rule mset_eq_length)
  then have len: "length arr' = 16" using l16 by (rule trans)
  have maj': "8 < occurrences arr' v" using maj by (subst occ)
  then have "filter (\<lambda>x. x = v) arr' \<noteq> []"
    unfolding occurrences_def by force
  then have mem: "v \<in> set arr'"
    by (auto simp only: filter_empty_conv)
  have "occurrences arr' w < occurrences arr' v" if "w \<noteq> v" for w
    using occurrences_two [OF that, of arr'] maj' len by linarith
  then have "\<forall>w\<in>set arr'. w \<noteq> v \<longrightarrow> occurrences arr' w < occurrences arr' v"
    by blast
  with mem show "mode arr' = Some v" by (rule mode_plurality)
next
  assume "arr \<noteq> []"
  then show "mode arr = Some (last (filter (\<lambda>a. \<forall>b\<in>set arr. occurrences arr b \<le> occurrences arr a) arr))"
    by (simp add: mode_sort_key last_sort_key_stable)
qed


theorem mode_majority_witness:
  "length [7, 1, 7, 2, 7, 3, 7, 4, 7, 5, 7, 6, 7, 8, 7, 7 :: int] = 16
   \<and> 8 < occurrences [7, 1, 7, 2, 7, 3, 7, 4, 7, 5, 7, 6, 7, 8, 7, 7] 7
   \<and> mset (rev [7, 1, 7, 2, 7, 3, 7, 4, 7, 5, 7, 6, 7, 8, 7, 7 :: int])
       = mset [7, 1, 7, 2, 7, 3, 7, 4, 7, 5, 7, 6, 7, 8, 7, 7]
   \<and> mode (rev [7, 1, 7, 2, 7, 3, 7, 4, 7, 5, 7, 6, 7, 8, 7, 7]) = Some 7
   \<and> [5, 3, 5, 3 :: int] \<noteq> []
   \<and> mode [5, 3, 5, 3] = Some 3"
proof -
  have a: "length [7, 1, 7, 2, 7, 3, 7, 4, 7, 5, 7, 6, 7, 8, 7, 7 :: int] = 16"
    by simp
  have b: "8 < occurrences [7, 1, 7, 2, 7, 3, 7, 4, 7, 5, 7, 6, 7, 8, 7, 7] 7"
    by (simp add: occurrences_def)
  have c: "mset (rev [7, 1, 7, 2, 7, 3, 7, 4, 7, 5, 7, 6, 7, 8, 7, 7 :: int])
       = mset [7, 1, 7, 2, 7, 3, 7, 4, 7, 5, 7, 6, 7, 8, 7, 7]"
    by (rule mset_rev)
  have d: "mode (rev [7, 1, 7, 2, 7, 3, 7, 4, 7, 5, 7, 6, 7, 8, 7, 7]) = Some 7"
    using mode_majority [of "[7, 1, 7, 2, 7, 3, 7, 4, 7, 5, 7, 6, 7, 8, 7, 7]" 7
        "rev [7, 1, 7, 2, 7, 3, 7, 4, 7, 5, 7, 6, 7, 8, 7, 7]"] a b c
    by blast
  have e: "[5, 3, 5, 3 :: int] \<noteq> []" by simp
  have "mode [5, 3, 5, 3]
      = Some (last (filter (\<lambda>a. \<forall>b\<in>set [5, 3, 5, 3].
          occurrences [5, 3, 5, 3] b \<le> occurrences [5, 3, 5, 3] a) [5, 3, 5, 3]))"
    using mode_majority [of "[5, 3, 5, 3]"] e by blast
  then have f: "mode [5, 3, 5, 3] = Some 3"
    by (simp add: occurrences_def)
  show ?thesis using a b c d e f by blast
qed

section \<open>Coordinate transforms: properties\<close>

lemma toImageCoords_toCanvasCoords:
  "toImageCoords (toCanvasCoords p True s) True s
   = Vector2D_scale (displayToImageRatio s * displayToImageRatio s) p"
  by (simp add: toImageCoords_def toCanvasCoords_def Vector2D_scale_def UP_RES_RATIO_def)


text \<open>
  C1: the claim is that \<^verbatim>\<open>toImageCoords\<close> with \<open>upRes = true\<close> undoes
  \<^verbatim>\<open>toCanvasCoords\<close> with \<open>upRes = true\<close>. The code multiplies by the ratio in both
  directions: at ratio 2 the point \<open>(1, 1)\<close> goes to \<open>(4, 4)\<close> on the canvas and
  comes back as \<open>(4, 4)\<close>, which is not within \<open>1e-9\<close> of \<open>(1, 1)\<close>.
\<close>
theorem toImageCoords_not_inverse_at_ratio_2:
  "toCanvasCoords (1, 1) True scenario_view = (4, 4)
   \<and> toImageCoords (toCanvasCoords (1, 1) True scenario_view) True scenario_view = (4, 4)
   \<and> \<not> \<bar>fst (toImageCoords (toCanvasCoords (1, 1) True scenario_view) True scenario_view) - 1\<bar>
        \<le> 1 / 10 ^ 9"
  by (simp add: toImageCoords_def toCanvasCoords_def Vector2D_scale_def UP_RES_RATIO_def
      scenario_view_def)


section \<open>Redrawing: properties\<close>

lemma redraw_detached: "\<not> canvases_attached s \<Longrightarrow> redraw s = (True, s)"
  by (auto simp add: redraw_def canvases_attached_def split: option.splits)

lemma redraw_attached_labels:
  "canvases_attached s \<Longrightarrow>
   labels (snd (redraw s)) = labels s @ [LabelRedraw (displayToImageRatio s * UP_RES_RATIO)]"
  by (auto simp add: redraw_def canvases_attached_def Let_def split: option.splits)


text \<open>
  C10: \<^verbatim>\<open>redraw\<close> returns true in every state: when the two canvases and the two
  contexts are attached it repaints (the label list receives a redraw call), when one of
  them is missing it leaves the state as it is, and the result is true in both cases.
\<close>
theorem redraw_returns_true:
  "fst (redraw s) = True
   \<and> (canvases_attached s \<longrightarrow>
        labels (snd (redraw s)) = labels s @ [LabelRedraw (displayToImageRatio s * UP_RES_RATIO)])
   \<and> (\<not> canvases_attached s \<longrightarrow> snd (redraw s) = s)"
proof -
  have "fst (redraw s) = True"
    by (simp add: redraw_def Let_def split: option.splits)
  then show ?thesis
    by (simp add: redraw_detached redraw_attached_labels)
qed

theorem redraw_returns_true_witness:
  "canvases_attached scenario_view \<and> fst (redraw scenario_view) = True
   \<and> labels (snd (redraw scenario_view)) = [LabelRedraw 4]
   \<and> \<not> canvases_attached constructor \<and> redraw constructor = (True, constructor)"
proof -
  have a: "canvases_attached scenario_view"
    by (simp add: canvases_attached_def scenario_view_def)
  have b: "\<not> canvases_attached constructor"
    by (simp add: canvases_attached_def constructor_def)
  have c: "labels scenario_view = []" "displayToImageRatio scenario_view = 2"
    by (simp_all add: scenario_view_def constructor_def)
  show ?thesis
    using redraw_returns_true [of scenario_view] redraw_returns_true [of constructor] a b c
    by (simp add: UP_RES_RATIO_def prod_eq_iff)
qed


section \<open>Rescaling: properties\<close>

lemma update_canvas_fields [simp]:
  "display (update_canvas r f s) = display s"
  "controlContext (update_canvas r f s) = controlContext s"
  "labelContext (update_canvas r f s) = labelContext s"
  "background (update_canvas r f s) = background s"
  "scale (update_canvas r f s) = scale s"
  "canvasWidth (update_canvas r f s) = canvasWidth s"
  "canvasHeight (update_canvas r f s) = canvasHeight s"
  "displayToImageRatio (update_canvas r f s) = displayToImageRatio s"
  "keyDownMap (update_canvas r f s) = keyDownMap s"
  "isGrabbingImage (update_canvas r f s) = isGrabbingImage s"
  by (simp_all add: update_canvas_def split: canvas_ref.splits)

lemma update_canvas_None [simp]:
  "(controlCanvas (update_canvas r f s) = None) = (controlCanvas s = None)"
  "(labelCanvas (update_canvas r f s) = None) = (labelCanvas s = None)"
  by (simp_all add: update_canvas_def split: canvas_ref.splits)

lemma update_display_fields [simp]:
  "display (update_display f s) = map_option f (display s)"
  "controlContext (update_display f s) = controlContext s"
  "controlCanvas (update_display f s) = controlCanvas s"
  "labelCanvas (update_display f s) = labelCanvas s"
  "scale (update_display f s) = scale s"
  "canvasWidth (update_display f s) = canvasWidth s"
  "canvasHeight (update_display f s) = canvasHeight s"
  "displayToImageRatio (update_display f s) = displayToImageRatio s"
  by (simp_all add: update_display_def)

lemma resize_canvas_fields [simp]:
  "display (resize_canvas config img r s) = display s"
  "controlContext (resize_canvas config img r s) = controlContext s"
  "controlCanvas (resize_canvas config img r s) = controlCanvas s"
  "labelCanvas (resize_canvas config img r s) = labelCanvas s"
  "scale (resize_canvas config img r s) = scale s"
  by (simp_all add: resize_canvas_def Let_def)

lemma zoom_to_point_fields [simp]:
  "controlContext (zoom_to_point z r a s) = controlContext s"
  "controlCanvas (zoom_to_point z r a s) = controlCanvas s"
  "labelCanvas (zoom_to_point z r a s) = labelCanvas s"
  "scale (zoom_to_point z r a s) = scale s"
  "canvasWidth (zoom_to_point z r a s) = canvasWidth s"
  "canvasHeight (zoom_to_point z r a s) = canvasHeight s"
  "displayToImageRatio (zoom_to_point z r a s) = displayToImageRatio s"
  by (simp_all add: zoom_to_point_def Let_def split: option.splits prod.splits)

lemma zoom_to_point_display:
  "display (zoom_to_point z r (Some (ul, mo)) s) =
     map_option (\<lambda>d. d\<lparr>
       scrollLeft := (if canvasWidth s > rect_width r
                      then z * (fst ul + fst mo) - fst mo else scrollLeft d),
       scrollTop := (if canvasHeight s > rect_height r
                     then z * (snd ul + snd mo) - snd mo else scrollTop d)\<rparr>) (display s)"
  by (cases "display s") (simp_all add: zoom_to_point_def Let_def)

text \<open>The viewport after a rescale that is applied.\<close>
lemma updateScale_applied:
  assumes "display s = Some d" and "controlCanvas s = Some cc" and "controlContext s = Some cx"
    and "MIN_SCALE \<le> viewScale config" and "viewScale config < MAX_SCALE"
  shows "scale (updateScale config img canvas upRes s) = viewScale config"
    and "canvasWidth (updateScale config img canvas upRes s)
         = canvasWidth (resize_canvas config img (div_rect d) s)"
    and "canvasHeight (updateScale config img canvas upRes s)
         = canvasHeight (resize_canvas config img (div_rect d) s)"
    and "displayToImageRatio (updateScale config img canvas upRes s)
         = displayToImageRatio (resize_canvas config img (div_rect d) s)"
  using assms
  by (simp_all add: updateScale_def Let_def split: prod.splits) (simp_all add: resize_canvas_def Let_def)

lemma updateScale_skipped:
  "\<not> (MIN_SCALE \<le> viewScale config \<and> viewScale config < MAX_SCALE) \<Longrightarrow>
   updateScale config img canvas upRes s = s"
  by (auto simp add: updateScale_def Let_def split: option.splits)

lemma updateScale_detached:
  "display s = None \<or> controlCanvas s = None \<or> controlContext s = None \<Longrightarrow>
   updateScale config img canvas upRes s = s"
  by (auto simp add: updateScale_def split: option.splits)


text \<open>
  C2: a rescale whose requested \<open>viewScale\<close> is outside \<open>[MIN_SCALE, MAX_SCALE)\<close>
  leaves the whole state, and so every viewport field, as it was; in particular a request
  for 0.5 or for 3 leaves \<open>scale\<close> unchanged; and whenever the rescale changes the
  state, the committed scale is the requested one and lies in \<open>[1, 3)\<close>.
\<close>
theorem updateScale_scale_bounds:
  "(\<not> (MIN_SCALE \<le> viewScale config \<and> viewScale config < MAX_SCALE) \<longrightarrow>
      updateScale config img canvas upRes s = s)
   \<and> (viewScale config = 1 / 2 \<or> viewScale config = 3 \<longrightarrow>
      scale (updateScale config img canvas upRes s) = scale s)
   \<and> (updateScale config img canvas upRes s \<noteq> s \<longrightarrow>
      scale (updateScale config img canvas upRes s) = viewScale config
      \<and> 1 \<le> scale (updateScale config img canvas upRes s)
      \<and> scale (updateScale config img canvas upRes s) < 3)"
proof -
  let ?s' = "updateScale config img canvas upRes s"
  have skip: "?s' = s" if "\<not> (MIN_SCALE \<le> viewScale config \<and> viewScale config < MAX_SCALE)"
    using that by (rule updateScale_skipped)
  have "\<not> (MIN_SCALE \<le> viewScale config \<and> viewScale config < MAX_SCALE)"
    if "viewScale config = 1 / 2 \<or> viewScale config = 3"
    using that by (auto simp: MIN_SCALE_def MAX_SCALE_def)
  then have examples: "scale ?s' = scale s"
    if "viewScale config = 1 / 2 \<or> viewScale config = 3"
    using that skip by simp
  have applied: "scale ?s' = viewScale config \<and> 1 \<le> scale ?s' \<and> scale ?s' < 3"
    if changed: "?s' \<noteq> s"
  proof -
    have range: "MIN_SCALE \<le> viewScale config \<and> viewScale config < MAX_SCALE"
      using changed skip by blast
    obtain d cc cx where att: "display s = Some d" "controlCanvas s = Some cc"
      "controlContext s = Some cx"
      using changed updateScale_detached by (metis option.exhaust)
    have "scale ?s' = viewScale config"
      using att range by (simp add: updateScale_applied)
    then show ?thesis
      using range by (simp add: MIN_SCALE_def MAX_SCALE_def)
  qed
  show ?thesis using skip examples applied by blast
qed


theorem updateScale_scale_bounds_witness:
  "updateScale (scenario_config\<lparr>viewScale := 3\<rparr>) scenario_image ControlCanvas True scenario_view
     = scenario_view
   \<and> updateScale scenario_config scenario_image ControlCanvas True scenario_view \<noteq> scenario_view
   \<and> scale (updateScale scenario_config scenario_image ControlCanvas True scenario_view) = 2
   \<and> scale scenario_view = 1"
proof -
  have "scale (updateScale scenario_config scenario_image ControlCanvas True scenario_view) = 2"
    by (simp add: updateScale_applied [where d = scenario_display and cc = scenario_canvas
          and cx = scenario_context] scenario_view_def scenario_config_def
        MIN_SCALE_def MAX_SCALE_def)
  moreover have "scale scenario_view = 1"
    by (simp add: scenario_view_def constructor_def)
  ultimately have "updateScale scenario_config scenario_image ControlCanvas True scenario_view
      \<noteq> scenario_view"
    by auto
  then have neq: "updateScale scenario_config scenario_image ControlCanvas True scenario_view
      \<noteq> scenario_view" .
  have out: "\<not> (MIN_SCALE \<le> viewScale (scenario_config\<lparr>viewScale := 3\<rparr>)
      \<and> viewScale (scenario_config\<lparr>viewScale := 3\<rparr>) < MAX_SCALE)"
    by (simp add: MAX_SCALE_def)
  have "updateScale (scenario_config\<lparr>viewScale := 3\<rparr>) scenario_image ControlCanvas True
      scenario_view = scenario_view"
    using updateScale_scale_bounds [of "scenario_config\<lparr>viewScale := 3\<rparr>" scenario_image
        ControlCanvas True scenario_view] out by blast
  moreover have "scale (updateScale scenario_config scenario_image ControlCanvas True scenario_view)
      = viewScale scenario_config"
    using updateScale_scale_bounds [of scenario_config scenario_image ControlCanvas True
        scenario_view] neq by blast
  moreover have "viewScale scenario_config = 2" by (simp add: scenario_config_def)
  moreover have "scale scenario_view = 1" by (simp add: scenario_view_def constructor_def)
  ultimately show ?thesis using neq by simp
qed


text \<open>
  C6: an applied rescale fits the image into the container: if the container is
  relatively wider than the image, the canvas height is the container height times
  \<open>viewScale\<close>, the width follows from the aspect ratio of the image and the
  display-to-image ratio is the canvas height over the image height; otherwise the same
  with width and height exchanged. For a container of 800 by 600, an image of 400 by 300
  and \<open>viewScale = 2\<close> the canvas is 1600 by 1200 and the ratio is 4.
\<close>
theorem updateScale_canvas_size:
  assumes "display s = Some d" and "controlCanvas s = Some cc" and "controlContext s = Some cx"
    and "MIN_SCALE \<le> viewScale config" and "viewScale config < MAX_SCALE"
  shows "(if rect_width (div_rect d) / rect_height (div_rect d)
             > size_width img / size_height img
          then canvasHeight (updateScale config img canvas upRes s)
                 = rect_height (div_rect d) * viewScale config
             \<and> canvasWidth (updateScale config img canvas upRes s)
                 = canvasHeight (updateScale config img canvas upRes s)
                   * (size_width img / size_height img)
             \<and> displayToImageRatio (updateScale config img canvas upRes s)
                 = canvasHeight (updateScale config img canvas upRes s) / size_height img
          else canvasWidth (updateScale config img canvas upRes s)
                 = rect_width (div_rect d) * viewScale config
             \<and> canvasHeight (updateScale config img canvas upRes s)
                 = canvasWidth (updateScale config img canvas upRes s)
                   / (size_width img / size_height img)
             \<and> displayToImageRatio (updateScale config img canvas upRes s)
                 = canvasWidth (updateScale config img canvas upRes s) / size_width img)
         \<and> (rect_width (div_rect d) = 800 \<and> rect_height (div_rect d) = 600
            \<and> size_width img = 400 \<and> size_height img = 300 \<and> viewScale config = 2
            \<longrightarrow> canvasWidth (updateScale config img canvas upRes s) = 1600
              \<and> canvasHeight (updateScale config img canvas upRes s) = 1200
              \<and> displayToImageRatio (updateScale config img canvas upRes s) = 4)"
  by (simp add: updateScale_applied [OF assms] resize_canvas_def Let_def)

theorem updateScale_canvas_size_witness:
  "display scenario_view = Some scenario_display
   \<and> controlCanvas scenario_view = Some scenario_canvas
   \<and> controlContext scenario_view = Some scenario_context
   \<and> MIN_SCALE \<le> viewScale scenario_config \<and> viewScale scenario_config < MAX_SCALE
   \<and> canvasWidth (updateScale scenario_config scenario_image ControlCanvas True scenario_view) = 1600
   \<and> canvasHeight (updateScale scenario_config scenario_image ControlCanvas True scenario_view) = 1200
   \<and> displayToImageRatio (updateScale scenario_config scenario_image ControlCanvas True scenario_view) = 4"
proof -
  have a: "display scenario_view = Some scenario_display"
    "controlCanvas scenario_view = Some scenario_canvas"
    "controlContext scenario_view = Some scenario_context"
    by (simp_all add: scenario_view_def)
  have b: "MIN_SCALE \<le> viewScale scenario_config" "viewScale scenario_config < MAX_SCALE"
    by (simp_all add: scenario_config_def MIN_SCALE_def MAX_SCALE_def)
  show ?thesis
    using updateScale_canvas_size [OF a b, of scenario_image ControlCanvas True] a b
    by (simp add: scenario_display_def scenario_image_def scenario_config_def)
qed

section \<open>Input handlers: properties\<close>

lemma setCursor_fields [simp]:
  "scale (setCursor c s) = scale s"
  "canvasWidth (setCursor c s) = canvasWidth s"
  "canvasHeight (setCursor c s) = canvasHeight s"
  "displayToImageRatio (setCursor c s) = displayToImageRatio s"
  "display (setCursor c s) = display s"
  "background (setCursor c s) = background s"
  "controlCanvas (setCursor c s) = controlCanvas s"
  "controlContext (setCursor c s) = controlContext s"
  "labelContext (setCursor c s) = labelContext s"
  "labels (setCursor c s) = labels s"
  "keyDownMap (setCursor c s) = keyDownMap s"
  "isGrabbingImage (setCursor c s) = isGrabbingImage s"
  "startGrabX (setCursor c s) = startGrabX s"
  "startGrabY (setCursor c s) = startGrabY s"
  "startGrabVisibleCoords (setCursor c s) = startGrabVisibleCoords s"
  by (simp_all add: setCursor_def split: option.splits)

lemma redraw_fields [simp]:
  "scale (snd (redraw s)) = scale s"
  "canvasWidth (snd (redraw s)) = canvasWidth s"
  "canvasHeight (snd (redraw s)) = canvasHeight s"
  "displayToImageRatio (snd (redraw s)) = displayToImageRatio s"
  "display (snd (redraw s)) = display s"
  "background (snd (redraw s)) = background s"
  "controlCanvas (snd (redraw s)) = controlCanvas s"
  "labelCanvas (snd (redraw s)) = labelCanvas s"
  "keyDownMap (snd (redraw s)) = keyDownMap s"
  "isGrabbingImage (snd (redraw s)) = isGrabbingImage s"
  "startGrabX (snd (redraw s)) = startGrabX s"
  "startGrabY (snd (redraw s)) = startGrabY s"
  "startGrabVisibleCoords (snd (redraw s)) = startGrabVisibleCoords s"
  by (simp_all add: redraw_def Let_def split: option.splits)

lemma getVisibleCanvasCoords_cong:
  "display s' = display s \<Longrightarrow> controlCanvas s' = controlCanvas s \<Longrightarrow>
   getVisibleCanvasCoords s' = getVisibleCanvasCoords s"
  by (simp add: getVisibleCanvasCoords_def)

lemma getVisibleCanvasCoords_setCursor [simp]:
  "getVisibleCanvasCoords (setCursor c s) = getVisibleCanvasCoords s"
  by (simp add: getVisibleCanvasCoords_def)

lemma isWithinFrame_cong:
  "background s' = background s \<Longrightarrow> isWithinFrame e s' = isWithinFrame e s"
  by (simp add: isWithinFrame_def)

lemma isKeyDown_cong:
  "keyDownMap s' = keyDownMap s \<Longrightarrow> isKeyDown k s' = isKeyDown k s"
  by (simp add: isKeyDown_def)

subsection \<open>Mouse down\<close>

lemma onMouseDown_ignored:
  "\<not> isWithinFrame e s \<or> button e \<noteq> 0 \<Longrightarrow> onMouseDown e s = s"
  by (auto simp add: onMouseDown_def)

lemma onMouseDown_frame [simp]:
  "scale (onMouseDown e s) = scale s"
  "canvasWidth (onMouseDown e s) = canvasWidth s"
  "canvasHeight (onMouseDown e s) = canvasHeight s"
  "displayToImageRatio (onMouseDown e s) = displayToImageRatio s"
  "display (onMouseDown e s) = display s"
  "background (onMouseDown e s) = background s"
  "controlCanvas (onMouseDown e s) = controlCanvas s"
  "keyDownMap (onMouseDown e s) = keyDownMap s"
  by (simp_all add: onMouseDown_def Let_def split: option.splits prod.splits)

lemma onMouseDown_grab:
  assumes "isWithinFrame e s" and "button e = 0" and "isKeyDown ''Control'' s"
    and "display s = Some d" and "controlCanvas s = Some c"
    and "canvas_width c > rect_width (div_rect d) \<or> canvas_height c > rect_height (div_rect d)"
  shows "isGrabbingImage (onMouseDown e s)"
    and "startGrabX (onMouseDown e s) = clientX e"
    and "startGrabY (onMouseDown e s) = clientY e"
    and "startGrabVisibleCoords (onMouseDown e s)
         = [fst (getVisibleCanvasCoords s), snd (getVisibleCanvasCoords s)]"
  using assms
  by (auto simp add: onMouseDown_def Let_def split: prod.splits)

subsection \<open>Mouse up\<close>

lemma onMouseUp_ignored:
  "\<not> isWithinFrame e s \<or> button e \<noteq> 0 \<Longrightarrow> onMouseUp e s = s"
  by (auto simp add: onMouseUp_def)

lemma onMouseUp_frame [simp]:
  "scale (onMouseUp e s) = scale s"
  "canvasWidth (onMouseUp e s) = canvasWidth s"
  "canvasHeight (onMouseUp e s) = canvasHeight s"
  "displayToImageRatio (onMouseUp e s) = displayToImageRatio s"
  "display (onMouseUp e s) = display s"
  "background (onMouseUp e s) = background s"
  "controlCanvas (onMouseUp e s) = controlCanvas s"
  "keyDownMap (onMouseUp e s) = keyDownMap s"
  by (simp_all add: onMouseUp_def Let_def split: option.splits prod.splits)

lemma onMouseUp_clears:
  assumes "isWithinFrame e s" and "button e = 0"
  shows "\<not> isGrabbingImage (onMouseUp e s)"
    and "startGrabX (onMouseUp e s) = - 1"
    and "startGrabY (onMouseUp e s) = - 1"
    and "startGrabVisibleCoords (onMouseUp e s) = []"
  using assms by (simp_all add: onMouseUp_def Let_def split: prod.splits)

subsection \<open>Mouse leave\<close>

lemma onMouseLeave_outside:
  "\<not> isWithinFrame e s \<or> button e \<noteq> 0 \<Longrightarrow> onMouseLeave e s = s\<lparr>keyDownMap := Map.empty\<rparr>"
  by (simp add: onMouseLeave_def onMouseUp_ignored isWithinFrame_def)

lemma onMouseLeave_keys: "keyDownMap (onMouseLeave e s) = Map.empty"
  by (simp add: onMouseLeave_def)

lemma onMouseLeave_frame [simp]:
  "scale (onMouseLeave e s) = scale s"
  "canvasWidth (onMouseLeave e s) = canvasWidth s"
  "canvasHeight (onMouseLeave e s) = canvasHeight s"
  "displayToImageRatio (onMouseLeave e s) = displayToImageRatio s"
  "display (onMouseLeave e s) = display s"
  "background (onMouseLeave e s) = background s"
  "controlCanvas (onMouseLeave e s) = controlCanvas s"
  by (simp_all add: onMouseLeave_def)

subsection \<open>Mouse move\<close>

lemma onMouseMove_outside:
  "\<not> isWithinFrame e s \<Longrightarrow> onMouseMove img e s = s\<lparr>keyDownMap := Map.empty\<rparr>"
  by (simp add: onMouseMove_def onMouseLeave_outside)

lemma onMouseMove_frame [simp]:
  "scale (onMouseMove img e s) = scale s"
  "canvasWidth (onMouseMove img e s) = canvasWidth s"
  "canvasHeight (onMouseMove img e s) = canvasHeight s"
  "displayToImageRatio (onMouseMove img e s) = displayToImageRatio s"
  "background (onMouseMove img e s) = background s"
  "controlCanvas (onMouseMove img e s) = controlCanvas s"
  "map_option div_rect (display (onMouseMove img e s)) = map_option div_rect (display s)"
  by (simp_all add: onMouseMove_def setDefaultCursor_def Let_def split: option.splits prod.splits)

lemma onMouseMove_pan:
  assumes "isWithinFrame e s" and "isKeyDown ''Control'' s" and "isGrabbingImage s"
    and "display s = Some d" and "startGrabVisibleCoords s = [sx, sy]"
  shows "display (onMouseMove img e s)
         = Some (d\<lparr>scrollLeft := sx - (clientX e - startGrabX s),
                   scrollTop := sy - (clientY e - startGrabY s)\<rparr>)"
  using assms
  by (simp add: onMouseMove_def Let_def scroll_from_def split: prod.splits)

lemma onMouseMove_no_pan:
  "\<not> isKeyDown ''Control'' s \<or> \<not> isGrabbingImage s \<Longrightarrow>
   display (onMouseMove img e s) = display s"
  by (auto simp add: onMouseMove_def setDefaultCursor_def Let_def split: prod.splits)

subsection \<open>The scenario states\<close>

lemma scenario_view_fields:
  "display scenario_view = Some scenario_display"
  "background scenario_view = Some scenario_display"
  "controlCanvas scenario_view = Some scenario_canvas"
  "controlContext scenario_view = Some scenario_context"
  "labelCanvas scenario_view = Some scenario_canvas"
  "labelContext scenario_view = Some scenario_context"
  "keyDownMap scenario_view = Map.empty"
  "isGrabbingImage scenario_view = False"
  "scale scenario_view = 1"
  "canvasWidth scenario_view = 800"
  "canvasHeight scenario_view = 600"
  "displayToImageRatio scenario_view = 2"
  by (simp_all add: scenario_view_def constructor_def)

lemma held_view_fields:
  "display held_view = Some scenario_display"
  "background held_view = Some scenario_display"
  "controlCanvas held_view = Some scenario_canvas"
  "isKeyDown ''Control'' held_view"
  "isGrabbingImage held_view = False"
  by (simp_all add: held_view_def onKeyDown_def isKeyDown_def scenario_view_fields)

lemma isWithinFrame_scenario:
  "background s = Some scenario_display \<Longrightarrow>
   isWithinFrame e s \<longleftrightarrow> 0 \<le> clientX e \<and> 0 \<le> clientY e \<and> clientX e \<le> 800 \<and> clientY e \<le> 600"
  by (simp add: isWithinFrame_def scenario_display_def rect_left_def rect_top_def)

lemma grabbing_view_fields:
  "isGrabbingImage grabbing_view"
  "startGrabX grabbing_view = 400"
  "startGrabY grabbing_view = 300"
  "startGrabVisibleCoords grabbing_view = [0, 0]"
  "background grabbing_view = Some scenario_display"
  "display grabbing_view = Some scenario_display"
  "isKeyDown ''Control'' grabbing_view"
proof -
  let ?e = "\<lparr>clientX = 400, clientY = 300, button = 0\<rparr>"
  have a1: "isWithinFrame ?e held_view"
    by (simp add: isWithinFrame_scenario held_view_fields)
  have a2: "button ?e = 0" by simp
  have a6: "canvas_width scenario_canvas > rect_width (div_rect scenario_display)
      \<or> canvas_height scenario_canvas > rect_height (div_rect scenario_display)"
    by (simp add: scenario_canvas_def scenario_display_def)
  note g = onMouseDown_grab [OF a1 a2 held_view_fields(4) held_view_fields(1)
      held_view_fields(3) a6]
  have v: "getVisibleCanvasCoords held_view = (0, 0)"
    by (simp add: getVisibleCanvasCoords_def held_view_fields scenario_display_def
        scenario_canvas_def)
  show "isGrabbingImage grabbing_view" unfolding grabbing_view_def by (rule g(1))
  show "startGrabX grabbing_view = 400" unfolding grabbing_view_def using g(2) by simp
  show "startGrabY grabbing_view = 300" unfolding grabbing_view_def using g(3) by simp
  show "startGrabVisibleCoords grabbing_view = [0, 0]"
    unfolding grabbing_view_def using g(4) by (simp add: v)
  show "background grabbing_view = Some scenario_display"
    by (simp add: grabbing_view_def held_view_fields)
  show "display grabbing_view = Some scenario_display"
    by (simp add: grabbing_view_def held_view_fields)
  show "isKeyDown ''Control'' grabbing_view"
    using held_view_fields(4) by (simp add: grabbing_view_def isKeyDown_def)
qed

subsection \<open>Grabbing and panning\<close>

text \<open>
  C8, as stated, fails: a press of a button other than the primary one, inside the frame,
  with the Control key held and the canvas larger than the container, is ignored by the
  guard on the button and starts no grab session.
\<close>
theorem secondary_button_starts_no_grab:
  "isWithinFrame \<lparr>clientX = 400, clientY = 300, button = 2\<rparr> held_view
   \<and> isKeyDown ''Control'' held_view
   \<and> display held_view = Some scenario_display
   \<and> controlCanvas held_view = Some scenario_canvas
   \<and> canvas_width scenario_canvas > rect_width (div_rect scenario_display)
   \<and> \<not> isGrabbingImage (onMouseDown \<lparr>clientX = 400, clientY = 300, button = 2\<rparr> held_view)"
  by (simp add: onMouseDown_ignored held_view_fields isWithinFrame_scenario)
    (simp add: scenario_canvas_def scenario_display_def)

lemma grab_starts:
  assumes h: "isWithinFrame e s \<and> button e = 0 \<and> isKeyDown ''Control'' s
      \<and> display s = Some d \<and> controlCanvas s = Some c
      \<and> (canvas_width c > rect_width (div_rect d) \<or> canvas_height c > rect_height (div_rect d))"
  shows "isGrabbingImage (onMouseDown e s)
      \<and> startGrabX (onMouseDown e s) = clientX e
      \<and> startGrabY (onMouseDown e s) = clientY e
      \<and> startGrabVisibleCoords (onMouseDown e s)
          = [fst (getVisibleCanvasCoords s), snd (getVisibleCanvasCoords s)]
      \<and> (isWithinFrame e' s \<longrightarrow>
           display (onMouseMove img e' (onMouseDown e s))
           = Some (d\<lparr>scrollLeft := fst (getVisibleCanvasCoords s) - (clientX e' - clientX e),
                     scrollTop := snd (getVisibleCanvasCoords s) - (clientY e' - clientY e)\<rparr>))"
proof -
  let ?s1 = "onMouseDown e s"
  from h have a1: "isWithinFrame e s" by (elim conjE)
  from h have a2: "button e = 0" by (elim conjE)
  from h have a3: "isKeyDown ''Control'' s" by (elim conjE)
  from h have a4: "display s = Some d" by (elim conjE)
  from h have a5: "controlCanvas s = Some c" by (elim conjE)
  from h have a6: "canvas_width c > rect_width (div_rect d)
      \<or> canvas_height c > rect_height (div_rect d)" by (elim conjE)
  note g = onMouseDown_grab [OF a1 a2 a3 a4 a5 a6]
  have m: "display (onMouseMove img e' ?s1)
        = Some (d\<lparr>scrollLeft := fst (getVisibleCanvasCoords s) - (clientX e' - startGrabX ?s1),
                  scrollTop := snd (getVisibleCanvasCoords s) - (clientY e' - startGrabY ?s1)\<rparr>)"
    if inside: "isWithinFrame e' s"
  proof (rule onMouseMove_pan)
    have "background ?s1 = background s" by simp
    then have "isWithinFrame e' ?s1 = isWithinFrame e' s" by (rule isWithinFrame_cong)
    then show "isWithinFrame e' ?s1" using inside by (rule iffD2)
    have "keyDownMap ?s1 = keyDownMap s" by simp
    then have "isKeyDown ''Control'' ?s1 = isKeyDown ''Control'' s" by (rule isKeyDown_cong)
    then show "isKeyDown ''Control'' ?s1" using a3 by (rule iffD2)
    show "isGrabbingImage ?s1" by (rule g(1))
    show "display ?s1 = Some d" using a4 by simp
    show "startGrabVisibleCoords ?s1
        = [fst (getVisibleCanvasCoords s), snd (getVisibleCanvasCoords s)]" by (rule g(4))
  qed
  have m': "isWithinFrame e' s \<longrightarrow>
           display (onMouseMove img e' ?s1)
           = Some (d\<lparr>scrollLeft := fst (getVisibleCanvasCoords s) - (clientX e' - clientX e),
                     scrollTop := snd (getVisibleCanvasCoords s) - (clientY e' - clientY e)\<rparr>)"
    using m by (simp only: g(2) g(3)) (rule impI)
  show ?thesis by (intro conjI g m')
qed

lemma grab_pans:
  assumes h: "isWithinFrame e s \<and> isKeyDown ''Control'' s \<and> isGrabbingImage s
      \<and> display s = Some d \<and> startGrabVisibleCoords s = [sx, sy]"
  shows "display (onMouseMove img e s)
          = Some (d\<lparr>scrollLeft := sx - (clientX e - startGrabX s),
                    scrollTop := sy - (clientY e - startGrabY s)\<rparr>)"
proof -
  from h have a1: "isWithinFrame e s" by (elim conjE)
  from h have a2: "isKeyDown ''Control'' s" by (elim conjE)
  from h have a3: "isGrabbingImage s" by (elim conjE)
  from h have a4: "display s = Some d" by (elim conjE)
  from h have a5: "startGrabVisibleCoords s = [sx, sy]" by (elim conjE)
  show ?thesis by (rule onMouseMove_pan [OF a1 a2 a3 a4 a5])
qed

lemma grab_ends:
  assumes h: "isWithinFrame e s \<and> button e = 0"
  shows "\<not> isGrabbingImage (onMouseUp e s)
      \<and> startGrabX (onMouseUp e s) = - 1 \<and> startGrabY (onMouseUp e s) = - 1
      \<and> startGrabVisibleCoords (onMouseUp e s) = []"
proof -
  from h have a1: "isWithinFrame e s" by (elim conjE)
  from h have a2: "button e = 0" by (elim conjE)
  show ?thesis by (intro conjI onMouseUp_clears [OF a1 a2])
qed

text \<open>
  C8, amended: a press of the primary button inside the frame, with the Control key held
  and the control canvas larger than the display in either dimension, starts a grab
  session that records the client coordinates of the press and the visible canvas
  coordinates (the scroll offsets as the view measures them), and a following move inside
  the frame sets the scroll position to the recorded offsets minus the distance moved;
  every move inside the frame while grabbing with the key held sets the scroll position
  to the recorded offsets minus the distance from the recorded start; a release of the
  primary button inside the frame clears the grab session; and a move without the
  Control key leaves the scroll position as it is.
\<close>
theorem grab_pan:
  "(isWithinFrame e s \<and> button e = 0 \<and> isKeyDown ''Control'' s
      \<and> display s = Some d \<and> controlCanvas s = Some c
      \<and> (canvas_width c > rect_width (div_rect d) \<or> canvas_height c > rect_height (div_rect d))
    \<longrightarrow> isGrabbingImage (onMouseDown e s)
      \<and> startGrabX (onMouseDown e s) = clientX e
      \<and> startGrabY (onMouseDown e s) = clientY e
      \<and> startGrabVisibleCoords (onMouseDown e s)
          = [fst (getVisibleCanvasCoords s), snd (getVisibleCanvasCoords s)]
      \<and> (isWithinFrame e' s \<longrightarrow>
           display (onMouseMove img e' (onMouseDown e s))
           = Some (d\<lparr>scrollLeft := fst (getVisibleCanvasCoords s) - (clientX e' - clientX e),
                     scrollTop := snd (getVisibleCanvasCoords s) - (clientY e' - clientY e)\<rparr>)))
   \<and> (isWithinFrame e s \<and> isKeyDown ''Control'' s \<and> isGrabbingImage s
      \<and> display s = Some d \<and> startGrabVisibleCoords s = [sx, sy]
    \<longrightarrow> display (onMouseMove img e s)
          = Some (d\<lparr>scrollLeft := sx - (clientX e - startGrabX s),
                    scrollTop := sy - (clientY e - startGrabY s)\<rparr>))
   \<and> (isWithinFrame e s \<and> button e = 0
    \<longrightarrow> \<not> isGrabbingImage (onMouseUp e s)
      \<and> startGrabX (onMouseUp e s) = - 1 \<and> startGrabY (onMouseUp e s) = - 1
      \<and> startGrabVisibleCoords (onMouseUp e s) = [])
   \<and> (\<not> isKeyDown ''Control'' s \<longrightarrow> display (onMouseMove img e s) = display s)"
proof (rule conjI)
  show "isWithinFrame e s \<and> button e = 0 \<and> isKeyDown ''Control'' s
      \<and> display s = Some d \<and> controlCanvas s = Some c
      \<and> (canvas_width c > rect_width (div_rect d) \<or> canvas_height c > rect_height (div_rect d))
    \<longrightarrow> isGrabbingImage (onMouseDown e s)
      \<and> startGrabX (onMouseDown e s) = clientX e
      \<and> startGrabY (onMouseDown e s) = clientY e
      \<and> startGrabVisibleCoords (onMouseDown e s)
          = [fst (getVisibleCanvasCoords s), snd (getVisibleCanvasCoords s)]
      \<and> (isWithinFrame e' s \<longrightarrow>
           display (onMouseMove img e' (onMouseDown e s))
           = Some (d\<lparr>scrollLeft := fst (getVisibleCanvasCoords s) - (clientX e' - clientX e),
                     scrollTop := snd (getVisibleCanvasCoords s) - (clientY e' - clientY e)\<rparr>))"
    by (rule impI) (rule grab_starts)
next
  show "(isWithinFrame e s \<and> isKeyDown ''Control'' s \<and> isGrabbingImage s
      \<and> display s = Some d \<and> startGrabVisibleCoords s = [sx, sy]
    \<longrightarrow> display (onMouseMove img e s)
          = Some (d\<lparr>scrollLeft := sx - (clientX e - startGrabX s),
                    scrollTop := sy - (clientY e - startGrabY s)\<rparr>))
   \<and> (isWithinFrame e s \<and> button e = 0
    \<longrightarrow> \<not> isGrabbingImage (onMouseUp e s)
      \<and> startGrabX (onMouseUp e s) = - 1 \<and> startGrabY (onMouseUp e s) = - 1
      \<and> startGrabVisibleCoords (onMouseUp e s) = [])
   \<and> (\<not> isKeyDown ''Control'' s \<longrightarrow> display (onMouseMove img e s) = display s)"
  proof (intro conjI)
    show "isWithinFrame e s \<and> isKeyDown ''Control'' s \<and> isGrabbingImage s
        \<and> display s = Some d \<and> startGrabVisibleCoords s = [sx, sy]
      \<longrightarrow> display (onMouseMove img e s)
            = Some (d\<lparr>scrollLeft := sx - (clientX e - startGrabX s),
                      scrollTop := sy - (clientY e - startGrabY s)\<rparr>)"
      by (rule impI) (rule grab_pans)
    show "isWithinFrame e s \<and> button e = 0
      \<longrightarrow> \<not> isGrabbingImage (onMouseUp e s)
        \<and> startGrabX (onMouseUp e s) = - 1 \<and> startGrabY (onMouseUp e s) = - 1
        \<and> startGrabVisibleCoords (onMouseUp e s) = []"
      by (rule impI) (rule grab_ends)
    show "\<not> isKeyDown ''Control'' s \<longrightarrow> display (onMouseMove img e s) = display s"
      by (rule impI) (rule onMouseMove_no_pan, rule disjI1)
  qed
qed

theorem grab_pan_witness:
  "isWithinFrame \<lparr>clientX = 400, clientY = 300, button = 0\<rparr> held_view
   \<and> isKeyDown ''Control'' held_view
   \<and> display held_view = Some scenario_display
   \<and> controlCanvas held_view = Some scenario_canvas
   \<and> canvas_width scenario_canvas > rect_width (div_rect scenario_display)
   \<and> isGrabbingImage grabbing_view
   \<and> startGrabX grabbing_view = 400 \<and> startGrabY grabbing_view = 300
   \<and> startGrabVisibleCoords grabbing_view = [0, 0]
   \<and> isWithinFrame \<lparr>clientX = 390, clientY = 280, button = 0\<rparr> held_view
   \<and> display (onMouseMove scenario_image \<lparr>clientX = 390, clientY = 280, button = 0\<rparr>
        grabbing_view)
       = Some (scenario_display\<lparr>scrollLeft := 10, scrollTop := 20\<rparr>)
   \<and> isWithinFrame \<lparr>clientX = 390, clientY = 280, button = 0\<rparr> grabbing_view
   \<and> isKeyDown ''Control'' grabbing_view
   \<and> \<not> isGrabbingImage (onMouseUp \<lparr>clientX = 390, clientY = 280, button = 0\<rparr> grabbing_view)
   \<and> startGrabVisibleCoords
        (onMouseUp \<lparr>clientX = 390, clientY = 280, button = 0\<rparr> grabbing_view) = []
   \<and> \<not> isKeyDown ''Control'' scenario_view
   \<and> display (onMouseMove scenario_image \<lparr>clientX = 390, clientY = 280, button = 0\<rparr>
        scenario_view) = display scenario_view"
proof -
  let ?p = "\<lparr>clientX = 400, clientY = 300, button = 0\<rparr>"
  let ?m = "\<lparr>clientX = 390, clientY = 280, button = 0\<rparr>"
  have h1: "isWithinFrame ?p held_view" "isWithinFrame ?m held_view"
    by (simp_all add: isWithinFrame_scenario held_view_fields)
  have h2: "canvas_width scenario_canvas > rect_width (div_rect scenario_display)"
    by (simp add: scenario_canvas_def scenario_display_def)
  have v: "getVisibleCanvasCoords held_view = (0, 0)"
    by (simp add: getVisibleCanvasCoords_def held_view_fields scenario_display_def
        scenario_canvas_def)
  have hyp1: "isWithinFrame ?p held_view \<and> button ?p = 0 \<and> isKeyDown ''Control'' held_view
      \<and> display held_view = Some scenario_display
      \<and> controlCanvas held_view = Some scenario_canvas
      \<and> (canvas_width scenario_canvas > rect_width (div_rect scenario_display)
         \<or> canvas_height scenario_canvas > rect_height (div_rect scenario_display))"
    using h1 h2 by (simp add: held_view_fields)
  note t1 = grab_pan [of ?p held_view scenario_display scenario_canvas ?m scenario_image 0 0]
  from t1 hyp1 have c1: "isGrabbingImage (onMouseDown ?p held_view)
      \<and> startGrabX (onMouseDown ?p held_view) = clientX ?p
      \<and> startGrabY (onMouseDown ?p held_view) = clientY ?p
      \<and> startGrabVisibleCoords (onMouseDown ?p held_view)
          = [fst (getVisibleCanvasCoords held_view), snd (getVisibleCanvasCoords held_view)]
      \<and> (isWithinFrame ?m held_view \<longrightarrow>
           display (onMouseMove scenario_image ?m (onMouseDown ?p held_view))
           = Some (scenario_display\<lparr>
               scrollLeft := fst (getVisibleCanvasCoords held_view) - (clientX ?m - clientX ?p),
               scrollTop := snd (getVisibleCanvasCoords held_view) - (clientY ?m - clientY ?p)\<rparr>))"
    by (rule conjunct1 [THEN mp])
  then have g: "isGrabbingImage grabbing_view" "startGrabX grabbing_view = 400"
    "startGrabY grabbing_view = 300" "startGrabVisibleCoords grabbing_view = [0, 0]"
    "display (onMouseMove scenario_image ?m grabbing_view)
       = Some (scenario_display\<lparr>scrollLeft := 10, scrollTop := 20\<rparr>)"
    using h1 by (simp_all add: grabbing_view_def v)
  have h3: "isWithinFrame ?m grabbing_view"
    by (simp add: isWithinFrame_scenario grabbing_view_fields)
  note t2 = grab_pan [of ?m grabbing_view scenario_display scenario_canvas ?m scenario_image 0 0]
  have hyp3: "isWithinFrame ?m grabbing_view \<and> button ?m = 0" using h3 by simp
  from t2 hyp3 have c3: "\<not> isGrabbingImage (onMouseUp ?m grabbing_view)
      \<and> startGrabX (onMouseUp ?m grabbing_view) = - 1
      \<and> startGrabY (onMouseUp ?m grabbing_view) = - 1
      \<and> startGrabVisibleCoords (onMouseUp ?m grabbing_view) = []"
    by (rule conjunct2 [THEN conjunct2, THEN conjunct1, THEN mp])
  have hyp2: "isWithinFrame ?m grabbing_view \<and> isKeyDown ''Control'' grabbing_view
      \<and> isGrabbingImage grabbing_view \<and> display grabbing_view = Some scenario_display
      \<and> startGrabVisibleCoords grabbing_view = [0, 0]"
    using h3 by (simp add: grabbing_view_fields)
  from t2 hyp2 have c2: "display (onMouseMove scenario_image ?m grabbing_view)
      = Some (scenario_display\<lparr>scrollLeft := 0 - (clientX ?m - startGrabX grabbing_view),
                               scrollTop := 0 - (clientY ?m - startGrabY grabbing_view)\<rparr>)"
    by (rule conjunct2 [THEN conjunct1, THEN mp])
  have hyp4: "\<not> isKeyDown ''Control'' scenario_view"
    by (simp add: isKeyDown_def scenario_view_fields)
  note t4 = grab_pan [of ?m scenario_view scenario_display scenario_canvas ?m scenario_image 0 0]
  from t4 hyp4 have c4: "display (onMouseMove scenario_image ?m scenario_view)
      = display scenario_view"
    by (rule conjunct2 [THEN conjunct2, THEN conjunct2, THEN mp])
  show ?thesis
    using h1 h2 h3 g c3 c4 hyp4 by (simp add: held_view_fields grabbing_view_fields)
qed

text \<open>
  C3: the claim is that after every mouse-leave event no grab session remains. The
  handler clears the held keys and delegates to the mouse-up handler, whose guard ignores
  an event outside the frame: a leave event at \<open>x = -1\<close> during a grab leaves the
  session and its start coordinates in place, as does a move outside the frame, and once
  the Control key is pressed again a move pans without any new press.
\<close>
theorem mouse_leave_keeps_grab:
  "isGrabbingImage grabbing_view
   \<and> \<not> isWithinFrame \<lparr>clientX = - 1, clientY = 300, button = 0\<rparr> grabbing_view
   \<and> keyDownMap (onMouseLeave \<lparr>clientX = - 1, clientY = 300, button = 0\<rparr> grabbing_view)
       = Map.empty
   \<and> isGrabbingImage (onMouseLeave \<lparr>clientX = - 1, clientY = 300, button = 0\<rparr> grabbing_view)
   \<and> startGrabX (onMouseLeave \<lparr>clientX = - 1, clientY = 300, button = 0\<rparr> grabbing_view) = 400
   \<and> startGrabY (onMouseLeave \<lparr>clientX = - 1, clientY = 300, button = 0\<rparr> grabbing_view) = 300
   \<and> startGrabVisibleCoords
        (onMouseLeave \<lparr>clientX = - 1, clientY = 300, button = 0\<rparr> grabbing_view) = [0, 0]
   \<and> isGrabbingImage
        (onMouseMove scenario_image \<lparr>clientX = - 1, clientY = 300, button = 0\<rparr> grabbing_view)
   \<and> display (onMouseMove scenario_image \<lparr>clientX = 390, clientY = 280, button = 0\<rparr>
        (onKeyDown ''Control''
          (onMouseLeave \<lparr>clientX = - 1, clientY = 300, button = 0\<rparr> grabbing_view)))
       = Some (scenario_display\<lparr>scrollLeft := 10, scrollTop := 20\<rparr>)"
proof -
  let ?l = "\<lparr>clientX = - 1, clientY = 300, button = 0\<rparr>"
  let ?m = "\<lparr>clientX = 390, clientY = 280, button = 0\<rparr>"
  have out: "\<not> isWithinFrame ?l grabbing_view"
    by (simp add: isWithinFrame_scenario grabbing_view_fields)
  have leave: "onMouseLeave ?l grabbing_view = grabbing_view\<lparr>keyDownMap := Map.empty\<rparr>"
    using out by (simp add: onMouseLeave_outside)
  have move: "onMouseMove scenario_image ?l grabbing_view
      = grabbing_view\<lparr>keyDownMap := Map.empty\<rparr>"
    using out by (simp add: onMouseMove_outside)
  let ?s = "onKeyDown ''Control'' (grabbing_view\<lparr>keyDownMap := Map.empty\<rparr>)"
  have "display (onMouseMove scenario_image ?m ?s)
      = Some (scenario_display\<lparr>scrollLeft := 0 - (clientX ?m - startGrabX ?s),
                               scrollTop := 0 - (clientY ?m - startGrabY ?s)\<rparr>)"
  proof (rule onMouseMove_pan)
    show "isWithinFrame ?m ?s"
      by (simp add: isWithinFrame_scenario onKeyDown_def grabbing_view_fields)
    show "isKeyDown ''Control'' ?s" by (simp add: isKeyDown_def onKeyDown_def)
    show "isGrabbingImage ?s" by (simp add: onKeyDown_def grabbing_view_fields)
    show "display ?s = Some scenario_display" by (simp add: onKeyDown_def grabbing_view_fields)
    show "startGrabVisibleCoords ?s = [0, 0]" by (simp add: onKeyDown_def grabbing_view_fields)
  qed
  then have resumed: "display (onMouseMove scenario_image ?m ?s)
      = Some (scenario_display\<lparr>scrollLeft := 10, scrollTop := 20\<rparr>)"
    by (simp add: onKeyDown_def grabbing_view_fields)
  show ?thesis
    using out resumed by (simp add: leave move grabbing_view_fields)
qed

section \<open>Anchor-preserving zoom: properties\<close>

lemma zoom_anchor_Some:
  assumes "zoom_anchor config r cc s = Some (upperLeft, anchorOffset)"
  shows "upperLeft = getVisibleCanvasCoords s" and "viewScale config > 1"
  using assms
  by (auto simp add: zoom_anchor_def Let_def split: if_splits prod.splits)

text \<open>
  C5: in an applied rescale with a computed anchor (the visible coordinates of the upper
  left corner, which are those of \<^verbatim>\<open>getVisibleCanvasCoords\<close>, and the screen offset of
  the anchor) and zoom ratio \<open>r = viewScale / scale\<close>, the scroll position of the
  display becomes, on each axis, \<open>r * (upperLeft + anchorOffset) - anchorOffset\<close> when
  the new canvas size exceeds the container on that axis; on an axis where it does not,
  the adjustment is not made and the scroll position is the one of the step "translate
  back to origin", the offset of the control canvas.
\<close>
theorem updateScale_anchor_scroll:
  assumes "display s = Some d" and "controlCanvas s = Some cc" and "controlContext s = Some cx"
    and "MIN_SCALE \<le> viewScale config" and "viewScale config < MAX_SCALE"
    and "zoom_anchor config (div_rect d) cc s = Some (upperLeft, anchorOffset)"
  shows "upperLeft = getVisibleCanvasCoords s
    \<and> display (updateScale config img canvas upRes s)
      = Some (d\<lparr>
          scrollLeft :=
            (if canvasWidth (updateScale config img canvas upRes s) > rect_width (div_rect d)
             then viewScale config / scale s * (fst upperLeft + fst anchorOffset)
                  - fst anchorOffset
             else offsetLeft cc),
          scrollTop :=
            (if canvasHeight (updateScale config img canvas upRes s) > rect_height (div_rect d)
             then viewScale config / scale s * (snd upperLeft + snd anchorOffset)
                  - snd anchorOffset
             else offsetTop cc)\<rparr>)"
proof (rule conjI)
  show "upperLeft = getVisibleCanvasCoords s" using assms(6) by (rule zoom_anchor_Some(1))
next
  let ?s' = "updateScale config img canvas upRes s"
  let ?r = "resize_canvas config img (div_rect d) s"
  note app = updateScale_applied [OF assms(1-5), of img canvas upRes]
  have "display ?s'
      = Some (d\<lparr>
          scrollLeft :=
            (if canvasWidth ?r > rect_width (div_rect d)
             then viewScale config / scale s * (fst upperLeft + fst anchorOffset)
                  - fst anchorOffset
             else offsetLeft cc),
          scrollTop :=
            (if canvasHeight ?r > rect_height (div_rect d)
             then viewScale config / scale s * (snd upperLeft + snd anchorOffset)
                  - snd anchorOffset
             else offsetTop cc)\<rparr>)"
    using assms
    by (simp add: updateScale_def Let_def zoom_to_point_display resize_canvas_def
        split: prod.splits)
  then show "display ?s'
      = Some (d\<lparr>
          scrollLeft :=
            (if canvasWidth ?s' > rect_width (div_rect d)
             then viewScale config / scale s * (fst upperLeft + fst anchorOffset)
                  - fst anchorOffset
             else offsetLeft cc),
          scrollTop :=
            (if canvasHeight ?s' > rect_height (div_rect d)
             then viewScale config / scale s * (snd upperLeft + snd anchorOffset)
                  - snd anchorOffset
             else offsetTop cc)\<rparr>)"
    by (simp only: app)
qed

theorem updateScale_anchor_scroll_witness:
  "display scenario_view = Some scenario_display
   \<and> controlCanvas scenario_view = Some scenario_canvas
   \<and> controlContext scenario_view = Some scenario_context
   \<and> MIN_SCALE \<le> viewScale scenario_config \<and> viewScale scenario_config < MAX_SCALE
   \<and> zoom_anchor scenario_config (div_rect scenario_display) scenario_canvas scenario_view
       = Some ((0, 0), (400, 300))
   \<and> display (updateScale scenario_config scenario_image ControlCanvas True scenario_view)
       = Some (scenario_display\<lparr>scrollLeft := 400, scrollTop := 300\<rparr>)"
proof -
  have a: "display scenario_view = Some scenario_display"
    "controlCanvas scenario_view = Some scenario_canvas"
    "controlContext scenario_view = Some scenario_context"
    by (simp_all add: scenario_view_fields)
  have b: "MIN_SCALE \<le> viewScale scenario_config" "viewScale scenario_config < MAX_SCALE"
    by (simp_all add: scenario_config_def MIN_SCALE_def MAX_SCALE_def)
  have z: "zoom_anchor scenario_config (div_rect scenario_display) scenario_canvas scenario_view
       = Some ((0, 0), (400, 300))"
    by (simp add: zoom_anchor_def Let_def scenario_config_def getVisibleCanvasCoords_def
        scenario_view_fields toCanvasCoords_def Vector2D_scale_def scenario_display_def
        scenario_canvas_def)
  have w: "canvasWidth (updateScale scenario_config scenario_image ControlCanvas True
        scenario_view) = 1600"
    "canvasHeight (updateScale scenario_config scenario_image ControlCanvas True
        scenario_view) = 1200"
    unfolding updateScale_applied [OF a b]
    by (simp_all add: resize_canvas_def Let_def
        scenario_display_def scenario_image_def scenario_config_def)
  have "display (updateScale scenario_config scenario_image ControlCanvas True scenario_view)
       = Some (scenario_display\<lparr>scrollLeft := 400, scrollTop := 300\<rparr>)"
    using updateScale_anchor_scroll [OF a b z, of scenario_image ControlCanvas True]
    unfolding w
    by (simp add: scenario_view_fields scenario_config_def scenario_display_def)
  then show ?thesis using a b z by simp
qed

section \<open>Invariants of the histories\<close>

lemma same_viewport_invariants:
  assumes "same_viewport s s'"
  shows "scale_bounded s \<Longrightarrow> scale_bounded s'"
    and "unscaled_without_canvas s \<Longrightarrow> unscaled_without_canvas s'"
    and "viewport_positive s \<Longrightarrow> viewport_positive s'"
proof -
  show "scale_bounded s \<Longrightarrow> scale_bounded s'"
    using assms by (simp add: same_viewport_def scale_bounded_def)
  show "unscaled_without_canvas s \<Longrightarrow> unscaled_without_canvas s'"
    using assms by (simp add: same_viewport_def unscaled_without_canvas_def)
  show "viewport_positive s'" if p: "viewport_positive s"
  proof -
    have "rect_ok (div_rect d')" if "display s' = Some d'" for d'
    proof -
      have "map_option div_rect (display s) = Some (div_rect d')"
        using assms that by (simp add: same_viewport_def)
      then obtain d where "display s = Some d" "div_rect d = div_rect d'" by auto
      then show ?thesis using p by (auto simp: viewport_positive_def)
    qed
    then show ?thesis using assms p by (simp add: same_viewport_def viewport_positive_def)
  qed
qed

lemma onWheel_frame [simp]:
  "scale (onWheel e s) = scale s"
  "canvasWidth (onWheel e s) = canvasWidth s"
  "canvasHeight (onWheel e s) = canvasHeight s"
  "displayToImageRatio (onWheel e s) = displayToImageRatio s"
  "display (onWheel e s) = display s"
  "controlCanvas (onWheel e s) = controlCanvas s"
  by (simp_all add: onWheel_def)

lemma handlers_same_viewport [simp]:
  "same_viewport s (background_ref el s)"
  "same_viewport s (display_ref None s)"
  "same_viewport s (onKeyDown k s)"
  "same_viewport s (onKeyUp k s)"
  "same_viewport s (onMouseDown e s)"
  "same_viewport s (onMouseUp e s)"
  "same_viewport s (onMouseLeave e s)"
  "same_viewport s (onMouseMove img e s)"
  "same_viewport s (onWheel e s)"
  "same_viewport s (onDblClick e s)"
  "same_viewport s (snd (redraw s))"
  "same_viewport s (setCursor c s)"
  by (simp_all add: same_viewport_def background_ref_def display_ref_def onKeyDown_def
      onKeyUp_def onDblClick_def split: option.splits)

text \<open>Only four kinds of calls can change the viewport or the rectangle of the display.\<close>
lemma step_cases:
  "same_viewport s (step a s)
   \<or> (\<exists>d. a = DisplayRef (Some d))
   \<or> (\<exists>c x loaded config img. a = ControlCanvasRef c x loaded config img)
   \<or> (\<exists>c x loaded config img. a = LabelCanvasRef c x loaded config img)
   \<or> (\<exists>d b lc cc lx cx. a = Browser d b lc cc lx cx)"
proof (cases a)
  case (DisplayRef el)
  then show ?thesis by (cases el) simp_all
qed simp_all

lemma updateScale_display_rect:
  "map_option div_rect (display (updateScale config img canvas upRes s))
   = map_option div_rect (display s)"
  by (cases "display s")
    (auto simp add: updateScale_def Let_def zoom_to_point_def update_display_def
      split: option.splits prod.splits)

lemma updateScale_controlCanvas_None:
  "(controlCanvas (updateScale config img canvas upRes s) = None) = (controlCanvas s = None)"
proof (cases "display s = None \<or> controlCanvas s = None \<or> controlContext s = None")
  case True
  then show ?thesis by (simp add: updateScale_detached)
next
  case False
  then obtain d cc cx where "display s = Some d" "controlCanvas s = Some cc"
    "controlContext s = Some cx" by auto
  then show ?thesis
    by (cases canvas) (simp_all add: updateScale_def Let_def update_canvas_def split: prod.splits)
qed

lemma resize_canvas_positive:
  assumes "0 < rect_width r" and "0 < rect_height r"
    and "0 < size_width img" and "0 < size_height img" and "MIN_SCALE \<le> viewScale config"
  shows "0 < canvasWidth (resize_canvas config img r s)"
    and "0 < canvasHeight (resize_canvas config img r s)"
    and "0 < displayToImageRatio (resize_canvas config img r s)"
proof -
  have v: "0 < viewScale config" using assms(5) by (simp add: MIN_SCALE_def)
  show "0 < canvasWidth (resize_canvas config img r s)"
    using assms(1-4) v by (simp add: resize_canvas_def Let_def)
  show "0 < canvasHeight (resize_canvas config img r s)"
    using assms(1-4) v by (simp add: resize_canvas_def Let_def)
  show "0 < displayToImageRatio (resize_canvas config img r s)"
    using assms(1-4) v by (simp add: resize_canvas_def Let_def)
qed

lemma updateScale_scale_bounded:
  assumes "scale_bounded s"
  shows "scale_bounded (updateScale config img canvas upRes s)"
proof (cases "display s = None \<or> controlCanvas s = None \<or> controlContext s = None
    \<or> \<not> (MIN_SCALE \<le> viewScale config \<and> viewScale config < MAX_SCALE)")
  case True
  then have "updateScale config img canvas upRes s = s"
    using updateScale_detached updateScale_skipped by blast
  then show ?thesis using assms by simp
next
  case False
  then obtain d cc cx where "display s = Some d" "controlCanvas s = Some cc"
    "controlContext s = Some cx" by auto
  then have "scale (updateScale config img canvas upRes s) = viewScale config"
    using False by (simp add: updateScale_applied)
  then show ?thesis using False by (simp add: scale_bounded_def)
qed

lemma updateScale_unscaled:
  assumes "unscaled_without_canvas s"
  shows "unscaled_without_canvas (updateScale config img canvas upRes s)"
proof (cases "controlCanvas s = None")
  case True
  then have "updateScale config img canvas upRes s = s" by (simp add: updateScale_detached)
  then show ?thesis using assms by simp
next
  case False
  then have "controlCanvas (updateScale config img canvas upRes s) \<noteq> None"
    by (simp only: updateScale_controlCanvas_None not_False_eq_True)
  then show ?thesis
    unfolding unscaled_without_canvas_def by (rule_tac impI) (erule notE)
qed

lemma updateScale_positive:
  assumes p: "viewport_positive s"
    and d: "display s = Some d" "rect_width (div_rect d) \<noteq> 0" "rect_height (div_rect d) \<noteq> 0"
    and i: "0 < size_width img" "0 < size_height img"
  shows "viewport_positive (updateScale config img canvas upRes s)"
proof (cases "controlCanvas s = None \<or> controlContext s = None
    \<or> \<not> (MIN_SCALE \<le> viewScale config \<and> viewScale config < MAX_SCALE)")
  case True
  then have "updateScale config img canvas upRes s = s"
    using updateScale_detached updateScale_skipped by blast
  then show ?thesis using p by simp
next
  case False
  then obtain cc cx where att: "controlCanvas s = Some cc" "controlContext s = Some cx" by auto
  from False have range: "MIN_SCALE \<le> viewScale config" "viewScale config < MAX_SCALE"
    by simp_all
  let ?s' = "updateScale config img canvas upRes s"
  have ok: "rect_ok (div_rect d)" using p d(1) by (simp add: viewport_positive_def)
  then have w: "0 < rect_width (div_rect d)" and h: "0 < rect_height (div_rect d)"
    using d(2,3) by (simp_all add: rect_ok_def)
  note pos = resize_canvas_positive [OF w h i range(1), of s]
  note app = updateScale_applied [OF d(1) att range, of img canvas upRes]
  have fields: "0 \<le> canvasWidth ?s'" "0 \<le> canvasHeight ?s'" "0 < displayToImageRatio ?s'"
    using pos app by simp_all
  have "rect_ok (div_rect d')" if "display ?s' = Some d'" for d'
  proof -
    have "map_option div_rect (display ?s') = Some (div_rect d)"
      using d(1) by (simp add: updateScale_display_rect)
    then have "div_rect d' = div_rect d" using that by simp
    then show ?thesis using ok by simp
  qed
  then show ?thesis using fields by (simp add: viewport_positive_def)
qed

lemma step_scale_bounded:
  assumes "scale_bounded s"
  shows "scale_bounded (step a s)"
proof -
  consider (same) "same_viewport s (step a s)"
    | (display) d where "a = DisplayRef (Some d)"
    | (control) c x loaded config img where "a = ControlCanvasRef c x loaded config img"
    | (label) c x loaded config img where "a = LabelCanvasRef c x loaded config img"
    | (browser) d b lc cc lx cx where "a = Browser d b lc cc lx cx"
    using step_cases [of s a] by blast
  then show ?thesis
  proof cases
    case same
    then show ?thesis using assms by (rule same_viewport_invariants(1))
  next
    case display
    then show ?thesis using assms by (simp add: display_ref_def scale_bounded_def)
  next
    case control
    have "scale_bounded (s\<lparr>controlCanvas := Some c', controlContext := x\<rparr>)" for c'
      using assms by (simp add: scale_bounded_def)
    then show ?thesis using control assms
      by (simp add: controlCanvas_ref_def Let_def updateScale_scale_bounded split: option.splits)
  next
    case label
    have "scale_bounded (s\<lparr>labelCanvas := Some c', labelContext := x\<rparr>)" for c'
      using assms by (simp add: scale_bounded_def)
    then show ?thesis using label assms
      by (simp add: labelCanvas_ref_def Let_def updateScale_scale_bounded split: option.splits)
  next
    case browser
    then show ?thesis using assms by (simp add: browser_update_def scale_bounded_def)
  qed
qed

lemma step_unscaled:
  assumes "unscaled_without_canvas s"
  shows "unscaled_without_canvas (step a s)"
proof -
  consider (same) "same_viewport s (step a s)"
    | (display) d where "a = DisplayRef (Some d)"
    | (control) c x loaded config img where "a = ControlCanvasRef c x loaded config img"
    | (label) c x loaded config img where "a = LabelCanvasRef c x loaded config img"
    | (browser) d b lc cc lx cx where "a = Browser d b lc cc lx cx"
    using step_cases [of s a] by blast
  then show ?thesis
  proof cases
    case same
    then show ?thesis using assms by (rule same_viewport_invariants(2))
  next
    case display
    then show ?thesis using assms by (simp add: display_ref_def unscaled_without_canvas_def)
  next
    case control
    have "unscaled_without_canvas (s\<lparr>controlCanvas := Some c', controlContext := x\<rparr>)" for c'
      by (simp add: unscaled_without_canvas_def)
    then show ?thesis using control assms
      by (simp add: controlCanvas_ref_def Let_def updateScale_unscaled split: option.splits)
  next
    case label
    have "unscaled_without_canvas (s\<lparr>labelCanvas := Some c', labelContext := x\<rparr>)" for c'
      using assms by (simp add: unscaled_without_canvas_def)
    then show ?thesis using label assms
      by (simp add: labelCanvas_ref_def Let_def updateScale_unscaled split: option.splits)
  next
    case browser
    then show ?thesis using assms by (simp add: browser_update_def unscaled_without_canvas_def)
  qed
qed

lemma step_positive:
  assumes "viewport_positive s" and "valid_action a"
  shows "viewport_positive (step a s)"
proof -
  consider (same) "same_viewport s (step a s)"
    | (display) d where "a = DisplayRef (Some d)"
    | (control) c x loaded config img where "a = ControlCanvasRef c x loaded config img"
    | (label) c x loaded config img where "a = LabelCanvasRef c x loaded config img"
    | (browser) d b lc cc lx cx where "a = Browser d b lc cc lx cx"
    using step_cases [of s a] by blast
  then show ?thesis
  proof cases
    case same
    then show ?thesis using assms(1) by (rule same_viewport_invariants(3))
  next
    case display
    then show ?thesis using assms by (simp add: display_ref_def viewport_positive_def)
  next
    case control
    have p: "viewport_positive (s\<lparr>controlCanvas := Some c', controlContext := x\<rparr>)" for c'
      using assms(1) by (simp add: viewport_positive_def)
    have i: "0 < size_width img" "0 < size_height img" using assms(2) control by simp_all
    show ?thesis
    proof (cases "c = None \<or> display s = None")
      case True
      then show ?thesis using control assms(1)
        by (auto simp add: controlCanvas_ref_def split: option.splits)
    next
      case False
      then obtain c' d where cd: "c = Some c'" "display s = Some d" by auto
      let ?s1 = "s\<lparr>controlCanvas := Some c', controlContext := x\<rparr>"
      have d1: "display ?s1 = Some d" using cd by simp
      show ?thesis using control cd p [of c'] updateScale_positive [OF p d1 _ _ i]
        by (simp add: controlCanvas_ref_def Let_def)
    qed
  next
    case label
    have p: "viewport_positive (s\<lparr>labelCanvas := Some c', labelContext := x\<rparr>)" for c'
      using assms(1) by (simp add: viewport_positive_def)
    have i: "0 < size_width img" "0 < size_height img" using assms(2) label by simp_all
    show ?thesis
    proof (cases "c = None \<or> display s = None")
      case True
      then show ?thesis using label assms(1)
        by (auto simp add: labelCanvas_ref_def split: option.splits)
    next
      case False
      then obtain c' d where cd: "c = Some c'" "display s = Some d" by auto
      let ?s1 = "s\<lparr>labelCanvas := Some c', labelContext := x\<rparr>"
      have d1: "display ?s1 = Some d" using cd by simp
      show ?thesis using label cd p [of c'] updateScale_positive [OF p d1 _ _ i]
        by (simp add: labelCanvas_ref_def Let_def)
    qed
  next
    case browser
    then show ?thesis using assms
      by (auto simp add: browser_update_def viewport_positive_def)
  qed
qed

lemma run_Nil: "run [] = constructor"
  by (simp add: run_def)

lemma run_snoc: "run (as @ [a]) = step a (run as)"
  by (simp add: run_def)

lemma run_scale_bounded: "scale_bounded (run as)"
proof (induction as rule: rev_induct)
  case Nil
  show ?case by (simp add: run_Nil constructor_def scale_bounded_def MIN_SCALE_def MAX_SCALE_def)
next
  case (snoc a as)
  then show ?case by (simp add: run_snoc step_scale_bounded)
qed

lemma run_unscaled: "unscaled_without_canvas (run as)"
proof (induction as rule: rev_induct)
  case Nil
  show ?case by (simp add: run_Nil constructor_def unscaled_without_canvas_def)
next
  case (snoc a as)
  then show ?case by (simp add: run_snoc step_unscaled)
qed

lemma run_positive: "list_all valid_action as \<Longrightarrow> viewport_positive (run as)"
proof (induction as rule: rev_induct)
  case Nil
  show ?case by (simp add: run_Nil constructor_def viewport_positive_def)
next
  case (snoc a as)
  then show ?case by (simp add: run_snoc step_positive)
qed

section \<open>Mouse position and missing resources: properties\<close>

lemma getMousePos_clamped:
  assumes "display s \<noteq> None" and "0 \<le> canvasWidth s" and "0 \<le> canvasHeight s"
    and "0 < displayToImageRatio s"
  shows "within_canvas (getMousePos e s) s"
  using assms
  by (auto simp add: within_canvas_def getMousePos_def Let_def divide_right_mono
      split: prod.splits)

lemma run_mounting:
  "display (run mounting) = Some scenario_display"
  "canvasWidth (run mounting) = 800"
  "canvasHeight (run mounting) = 600"
  "displayToImageRatio (run mounting) = 2"
  "getVisibleCanvasCoords (run mounting) = (0, 0)"
  by (simp_all add: run_def mounting_def background_ref_def display_ref_def
      controlCanvas_ref_def constructor_def scenario_display_def scenario_canvas_def
      scenario_context_def scenario_image_def updateScale_def Let_def zoom_anchor_def
      resize_canvas_def update_canvas_def getPadding_def zoom_to_point_def
      MIN_SCALE_def MAX_SCALE_def UP_RES_RATIO_def getVisibleCanvasCoords_def)

text \<open>
  C7: for every mouse event, whatever its client coordinates, the position returned by
  \<^verbatim>\<open>getMousePos\<close> with the display attached lies in
  \<open>[0, canvasWidth / ratio] \<times> [0, canvasHeight / ratio]\<close>: in every state whose canvas
  size is not negative and whose ratio is positive, and so in every state that a history
  of calls reaches from the constructor, given that the rectangles of the display have a
  width and a height that are not negative and that images have a positive size.
\<close>
theorem getMousePos_within_canvas:
  "(display s \<noteq> None \<and> 0 \<le> canvasWidth s \<and> 0 \<le> canvasHeight s
      \<and> 0 < displayToImageRatio s
    \<longrightarrow> within_canvas (getMousePos e s) s)
   \<and> (list_all valid_action as \<and> display (run as) \<noteq> None
    \<longrightarrow> within_canvas (getMousePos e (run as)) (run as))"
proof (rule conjI)
  show "display s \<noteq> None \<and> 0 \<le> canvasWidth s \<and> 0 \<le> canvasHeight s
      \<and> 0 < displayToImageRatio s
    \<longrightarrow> within_canvas (getMousePos e s) s"
    by (rule impI, elim conjE, rule getMousePos_clamped)
next
  show "list_all valid_action as \<and> display (run as) \<noteq> None
    \<longrightarrow> within_canvas (getMousePos e (run as)) (run as)"
  proof (rule impI, elim conjE)
    assume v: "list_all valid_action as" and d: "display (run as) \<noteq> None"
    have "viewport_positive (run as)" using v by (rule run_positive)
    then have "0 \<le> canvasWidth (run as)" "0 \<le> canvasHeight (run as)"
      "0 < displayToImageRatio (run as)"
      by (simp_all add: viewport_positive_def)
    with d show "within_canvas (getMousePos e (run as)) (run as)"
      by (rule getMousePos_clamped)
  qed
qed

theorem getMousePos_within_canvas_witness:
  "list_all valid_action mounting \<and> display (run mounting) \<noteq> None
   \<and> 0 \<le> canvasWidth (run mounting) \<and> 0 \<le> canvasHeight (run mounting)
   \<and> 0 < displayToImageRatio (run mounting)
   \<and> getMousePos \<lparr>clientX = - 50, clientY = 1000, button = 0\<rparr> (run mounting) = (0, 300)
   \<and> within_canvas (0, 300) (run mounting)"
proof -
  let ?e = "\<lparr>clientX = - 50, clientY = 1000, button = 0\<rparr>"
  have v: "list_all valid_action mounting"
    by (simp add: mounting_def rect_ok_def scenario_display_def scenario_image_def)
  have d: "display (run mounting) \<noteq> None" by (simp add: run_mounting)
  have p: "0 \<le> canvasWidth (run mounting)" "0 \<le> canvasHeight (run mounting)"
    "0 < displayToImageRatio (run mounting)" by (simp_all add: run_mounting)
  have g: "getMousePos ?e (run mounting) = (0, 300)"
    by (simp add: getMousePos_def run_mounting Let_def scenario_display_def)
  note t = getMousePos_within_canvas [of "run mounting" ?e mounting]
  have "display (run mounting) \<noteq> None \<and> 0 \<le> canvasWidth (run mounting)
      \<and> 0 \<le> canvasHeight (run mounting) \<and> 0 < displayToImageRatio (run mounting)
    \<longrightarrow> within_canvas (getMousePos ?e (run mounting)) (run mounting)"
    using t by (rule conjunct1)
  then have direct: "within_canvas (getMousePos ?e (run mounting)) (run mounting)"
    using d p by simp
  have "list_all valid_action mounting \<and> display (run mounting) \<noteq> None
    \<longrightarrow> within_canvas (getMousePos ?e (run mounting)) (run mounting)"
    using t by (rule conjunct2)
  then have "within_canvas (getMousePos ?e (run mounting)) (run mounting)"
    using v d by simp
  then have "within_canvas (0, 300) (run mounting)" by (simp only: g)
  then show ?thesis using v d p g direct by simp
qed

lemma getMousePos_without_canvas:
  assumes "controlCanvas s = None" and "canvasWidth s = 0" and "canvasHeight s = 0"
  shows "getMousePos e s = (0, 0)"
  using assms
  by (simp add: getMousePos_def getVisibleCanvasCoords_def Let_def split: option.splits)

text \<open>
  C9: without a control context \<^verbatim>\<open>fetchHandleId\<close> returns \<open>(-1, 0)\<close>; without a
  display \<^verbatim>\<open>getMousePos\<close> returns \<open>(0, 0)\<close>; without a display or without a control
  canvas \<^verbatim>\<open>getVisibleCanvasCoords\<close> returns \<open>(0, 0)\<close>; and in every state that a
  history of calls reaches, \<^verbatim>\<open>getMousePos\<close> returns \<open>(0, 0)\<close> while the control canvas
  is not attached. Each of these branches returns its default value directly.
\<close>
theorem missing_resource_defaults:
  "(controlContext s = None \<longrightarrow> fetchHandleId mousePos s = (- 1, 0))
   \<and> (display s = None \<longrightarrow> getMousePos e s = (0, 0))
   \<and> (display s = None \<or> controlCanvas s = None \<longrightarrow> getVisibleCanvasCoords s = (0, 0))
   \<and> (controlCanvas (run as) = None \<longrightarrow> getMousePos e (run as) = (0, 0))"
proof (intro conjI impI)
  assume "controlContext s = None"
  then show "fetchHandleId mousePos s = (- 1, 0)" by (simp add: fetchHandleId_def)
next
  assume "display s = None"
  then show "getMousePos e s = (0, 0)" by (simp add: getMousePos_def)
next
  assume "display s = None \<or> controlCanvas s = None"
  then show "getVisibleCanvasCoords s = (0, 0)"
    by (auto simp add: getVisibleCanvasCoords_def split: option.splits)
next
  assume n: "controlCanvas (run as) = None"
  have "unscaled_without_canvas (run as)" by (rule run_unscaled)
  then have "canvasWidth (run as) = 0" "canvasHeight (run as) = 0"
    using n by (simp_all add: unscaled_without_canvas_def)
  with n show "getMousePos e (run as) = (0, 0)" by (rule getMousePos_without_canvas)
qed

theorem missing_resource_defaults_witness:
  "controlContext constructor = None \<and> fetchHandleId (3, 4) constructor = (- 1, 0)
   \<and> display constructor = None
   \<and> getMousePos \<lparr>clientX = 5, clientY = 6, button = 0\<rparr> constructor = (0, 0)
   \<and> getVisibleCanvasCoords constructor = (0, 0)
   \<and> controlCanvas (run [DisplayRef (Some scenario_display)]) = None
   \<and> display (run [DisplayRef (Some scenario_display)]) = Some scenario_display
   \<and> getMousePos \<lparr>clientX = 5, clientY = 6, button = 0\<rparr>
        (run [DisplayRef (Some scenario_display)]) = (0, 0)"
proof -
  let ?e = "\<lparr>clientX = 5, clientY = 6, button = 0\<rparr>"
  let ?as = "[DisplayRef (Some scenario_display)]"
  have a: "controlContext constructor = None" "display constructor = None"
    by (simp_all add: constructor_def)
  have b: "controlCanvas (run ?as) = None" "display (run ?as) = Some scenario_display"
    by (simp_all add: run_def display_ref_def constructor_def)
  note t = missing_resource_defaults [of constructor "(3, 4)" ?e ?as]
  have "fetchHandleId (3, 4) constructor = (- 1, 0)"
    using t a by simp
  moreover have "getMousePos ?e constructor = (0, 0)"
    using t a by simp
  moreover have "getVisibleCanvasCoords constructor = (0, 0)"
    using t a by simp
  moreover have "getMousePos ?e (run ?as) = (0, 0)"
    using t b by simp
  ultimately show ?thesis using a b by simp
qed

end
